theory Spec2Isabelle
  imports Complex_Main "HOL-Library.Multiset" "HOL-Library.Product_Lexorder"
begin

section \<open>Python values shared by the modules\<close>

text \<open>
  Exceptions are values. Only subclasses of Python's \<open>Exception\<close> are listed: they are
  what the \<open>except Exception\<close> handlers of the sources catch. Every constructor carries the
  text that \<open>str(e)\<close> yields.
\<close>

datatype error =
    ApiError string
  | IndexError string
  | KeyError string
  | ValueError string
  | TypeError string
  | JSONDecodeError string
  | DatabaseError string
  | IntegrityError string
  | IOError string
  | ZeroDivisionError string

fun str_error :: "error \<Rightarrow> string" where
  "str_error (ApiError m) = m"
| "str_error (IndexError m) = m"
| "str_error (KeyError m) = m"
| "str_error (ValueError m) = m"
| "str_error (TypeError m) = m"
| "str_error (JSONDecodeError m) = m"
| "str_error (DatabaseError m) = m"
| "str_error (IntegrityError m) = m"
| "str_error (IOError m) = m"
| "str_error (ZeroDivisionError m) = m"

text \<open>\<open>str(n)\<close> for a Python int: decimal digits, a leading minus sign when negative.\<close>

definition digit_char :: "nat \<Rightarrow> char" where
  "digit_char n = ''0123456789'' ! (n mod 10)"

fun str_nat :: "nat \<Rightarrow> string" where
  "str_nat n = (if n < 10 then [digit_char n] else str_nat (n div 10) @ [digit_char n])"

declare str_nat.simps [simp del]

definition str_int :: "int \<Rightarrow> string" where
  "str_int i = (if i < 0 then CHR ''-'' # str_nat (nat (- i)) else str_nat (nat i))"

text \<open>
  Python slices \<open>xs[start:]\<close> and \<open>xs[:stop]\<close> for int bounds: a negative bound counts from
  the end and is clamped at the front of the list.
\<close>

definition slice_from :: "int \<Rightarrow> 'a list \<Rightarrow> 'a list" where
  "slice_from start xs =
     (if start < 0 then drop (nat (int (length xs) + start)) xs else drop (nat start) xs)"

definition slice_to :: "int \<Rightarrow> 'a list \<Rightarrow> 'a list" where
  "slice_to stop xs =
     (if stop < 0 then take (nat (int (length xs) + stop)) xs else take (nat stop) xs)"

text \<open>
  A Python dict keeps its keys in insertion order: assigning to a key that is present
  replaces the value where it stands, assigning to a new key appends it, and \<open>del\<close> of a
  missing key raises \<open>KeyError\<close>.
\<close>

type_synonym ('k, 'v) dict = "('k \<times> 'v) list"

fun dict_set :: "'k \<Rightarrow> 'v \<Rightarrow> ('k, 'v) dict \<Rightarrow> ('k, 'v) dict" where
  "dict_set k v [] = [(k, v)]"
| "dict_set k v ((k', v') # d) = (if k' = k then (k, v) # d else (k', v') # dict_set k v d)"

fun dict_get :: "('k, 'v) dict \<Rightarrow> 'k \<Rightarrow> 'v option" where
  "dict_get [] k = None"
| "dict_get ((k', v') # d) k = (if k' = k then Some v' else dict_get d k)"

fun dict_del :: "'k \<Rightarrow> ('k, 'v) dict \<Rightarrow> ('k, 'v) dict option" where
  "dict_del k [] = None"
| "dict_del k ((k', v') # d) =
     (if k' = k then Some d else map_option (\<lambda>d'. (k', v') # d') (dict_del k d))"

definition keys :: "('k, 'v) dict \<Rightarrow> 'k list" where
  "keys d = map fst d"

definition well_formed_dict :: "('k, 'v) dict \<Rightarrow> bool" where
  "well_formed_dict d = distinct (keys d)"

text \<open>
  A Python float is a finite number, an infinity or nan. A finite float is read as the
  real number it stands for (both zeros as 0); the int \<open>0\<close> that \<open>_cosine_similarity\<close> and
  the fallback answer return compares equal to the float \<open>0.0\<close> and is not told apart
  from it. Which float an arithmetic operation returns is the affair of the floating-point
  unit and is not fixed here: the operations are parameters (\<open>float_ops\<close> below).
  Comparisons are those of IEEE 754: every comparison with nan is false.
\<close>

datatype pyfloat = Finite real | PosInf | NegInf | NaN

instantiation pyfloat :: zero
begin

definition zero_pyfloat :: pyfloat where
  "zero_pyfloat = Finite 0"

instance ..

end

fun float_le :: "pyfloat \<Rightarrow> pyfloat \<Rightarrow> bool" where
  "float_le NaN b = False"
| "float_le a NaN = False"
| "float_le NegInf b = True"
| "float_le a PosInf = True"
| "float_le (Finite x) (Finite y) = (x \<le> y)"
| "float_le a b = False"

text \<open>
  The operations on floats that the sources use: the builtin \<open>sum\<close> over a sequence of
  floats, \<open>*\<close>, \<open>/\<close> for a divisor that is not zero (a zero divisor raises before the unit
  is asked), and \<open>math.sqrt\<close>, which raises \<open>ValueError\<close> outside its domain. The last field is
  what \<open>list.sort\<close> makes of a list among whose keys there is a nan: the comparisons are then
  inconsistent and the order that results is the sorting algorithm's own.
\<close>

record 'e float_ops =
  float_sum :: "pyfloat list \<Rightarrow> pyfloat"
  float_mul :: "pyfloat \<Rightarrow> pyfloat \<Rightarrow> pyfloat"
  float_div :: "pyfloat \<Rightarrow> pyfloat \<Rightarrow> pyfloat"
  float_sqrt :: "pyfloat \<Rightarrow> error + pyfloat"
  sort_with_nan :: "'e list \<Rightarrow> 'e list"

section \<open>vector_store.py\<close>

type_synonym vector = "pyfloat list"

text \<open>
  The chunk dictionaries built by \<open>_create_chunk\<close> and passed to \<open>add_chunks\<close>. They carry
  all five keys, so the defaults of \<open>chunk.get('page_numbers', [])\<close> and
  \<open>chunk.get('token_count', 0)\<close> in \<open>add_chunks\<close> never apply.
\<close>

record chunk =
  ch_text :: string
  ch_chunk_index :: int
  ch_page_numbers :: "int list"
  ch_token_count :: int
  ch_document_id :: int

text \<open>The value stored under each key of \<open>embeddings_data\<close>.\<close>

record chunk_data =
  cd_embedding :: vector
  cd_text :: string
  cd_document_id :: int
  cd_chunk_index :: int
  cd_page_numbers :: "int list"
  cd_token_count :: int

text \<open>
  The state of the \<open>VectorStore\<close> object: the in-memory mapping, and the inputs of the
  requests sent so far to the embedding capability (\<open>client.embeddings.create\<close>). The
  capability itself is a parameter \<open>client\<close>: given the number of earlier requests and the
  input texts it either raises or returns the vectors of \<open>response.data\<close>.
  \<open>_save_embeddings\<close> catches every exception of the file write and never touches
  \<open>embeddings_data\<close>, so the file is left out of the state.
\<close>

record vector_store =
  embeddings_data :: "(string, chunk_data) dict"
  api_calls :: "string list list"

type_synonym embedding_client = "nat \<Rightarrow> string list \<Rightarrow> error + vector list"

definition embeddings_create ::
  "embedding_client \<Rightarrow> vector_store \<Rightarrow> string list \<Rightarrow> (error + vector list) \<times> vector_store" where
  "embeddings_create client vs texts =
     (client (length (api_calls vs)) texts, vs\<lparr>api_calls := api_calls vs @ [texts]\<rparr>)"

definition chunk_id_of :: "int \<Rightarrow> int \<Rightarrow> string" where
  "chunk_id_of document_id chunk_index =
     ''doc_'' @ str_int document_id @ ''_chunk_'' @ str_int chunk_index"

text \<open>
  The loop \<open>for i, chunk in enumerate(chunks)\<close> of \<open>add_chunks\<close>. \<open>response.data[i]\<close> raises
  \<open>IndexError\<close> when the response is shorter than the batch; the entries written before
  that stay in the mapping.
\<close>

fun add_chunks_loop ::
  "vector list \<Rightarrow> nat \<Rightarrow> chunk list \<Rightarrow> string list \<Rightarrow> (string, chunk_data) dict
     \<Rightarrow> (error + string list) \<times> (string, chunk_data) dict" where
  "add_chunks_loop data i [] ids d = (Inr ids, d)"
| "add_chunks_loop data i (c # cs) ids d =
     (let chunk_id = chunk_id_of (ch_document_id c) (ch_chunk_index c);
          ids' = ids @ [chunk_id]
      in if i < length data
         then add_chunks_loop data (Suc i) cs ids'
                (dict_set chunk_id
                   \<lparr>cd_embedding = data ! i, cd_text = ch_text c,
                    cd_document_id = ch_document_id c, cd_chunk_index = ch_chunk_index c,
                    cd_page_numbers = ch_page_numbers c, cd_token_count = ch_token_count c\<rparr> d)
         else (Inl (IndexError ''list index out of range''), d))"

definition add_chunks ::
  "embedding_client \<Rightarrow> vector_store \<Rightarrow> chunk list \<Rightarrow> (error + string list) \<times> vector_store" where
  "add_chunks client vs chunks =
     (if chunks = [] then (Inr [], vs)
      else
        let texts = map ch_text chunks;
            (response, vs1) = embeddings_create client vs texts
        in case response of
             Inl e \<Rightarrow> (Inl e, vs1)
           | Inr data \<Rightarrow>
               (let (r, d) = add_chunks_loop data 0 chunks [] (embeddings_data vs1)
                in (r, vs1\<lparr>embeddings_data := d\<rparr>)))"

text \<open>
  \<open>delete_document_chunks\<close>: first the keys of the document are collected, then each is
  deleted; the result is the bool \<open>len(chunks_to_delete) > 0\<close>. The \<open>KeyError\<close> of \<open>del\<close>
  needs a key that occurs twice among the collected ones, which a dict never has.
\<close>

fun chunks_to_delete :: "(string, chunk_data) dict \<Rightarrow> int \<Rightarrow> string list" where
  "chunks_to_delete [] document_id = []"
| "chunks_to_delete ((chunk_id, cd) # d) document_id =
     (if cd_document_id cd = document_id then chunk_id # chunks_to_delete d document_id
      else chunks_to_delete d document_id)"

fun delete_keys :: "string list \<Rightarrow> (string, chunk_data) dict \<Rightarrow> error + (string, chunk_data) dict" where
  "delete_keys [] d = Inr d"
| "delete_keys (k # ks) d =
     (case dict_del k d of None \<Rightarrow> Inl (KeyError k) | Some d' \<Rightarrow> delete_keys ks d')"

definition delete_document_chunks :: "vector_store \<Rightarrow> int \<Rightarrow> (error + bool) \<times> vector_store" where
  "delete_document_chunks vs document_id =
     (let to_delete = chunks_to_delete (embeddings_data vs) document_id
      in case delete_keys to_delete (embeddings_data vs) of
           Inl e \<Rightarrow> (Inl e, vs)
         | Inr d \<Rightarrow> (Inr (length to_delete > 0), vs\<lparr>embeddings_data := d\<rparr>))"

definition reset_collection :: "vector_store \<Rightarrow> bool \<times> vector_store" where
  "reset_collection vs = (True, vs\<lparr>embeddings_data := []\<rparr>)"

text \<open>\<open>get_collection_stats\<close>: the two counts of the returned dictionary.\<close>

record collection_stats =
  total_chunks :: nat
  documents_with_chunks :: nat

fun document_counts :: "chunk_data list \<Rightarrow> (int, nat) dict \<Rightarrow> (int, nat) dict" where
  "document_counts [] counts = counts"
| "document_counts (cd # cds) counts =
     document_counts cds
       (dict_set (cd_document_id cd)
          ((case dict_get counts (cd_document_id cd) of None \<Rightarrow> 0 | Some n \<Rightarrow> n) + 1) counts)"

definition get_collection_stats :: "vector_store \<Rightarrow> collection_stats" where
  "get_collection_stats vs =
     \<lparr>total_chunks = length (embeddings_data vs),
      documents_with_chunks = length (document_counts (map snd (embeddings_data vs)) [])\<rparr>"

text \<open>
  \<open>search_similar_chunks\<close>. The entries of \<open>similarities\<close> and the dictionaries of the
  returned list are records.
\<close>

record similarity_entry =
  se_id :: string
  se_similarity :: pyfloat
  se_data :: chunk_data

record similar_chunk =
  sc_id :: string
  sc_text :: string
  sc_similarity :: pyfloat
  sc_chunk_index :: int
  sc_page_numbers :: "int list"
  sc_token_count :: int

text \<open>
  \<open>_cosine_similarity\<close>. \<open>zip\<close> stops at the shorter vector; \<open>sum\<close> of no numbers is 0; a zero
  magnitude gives 0. Python raises \<open>ZeroDivisionError\<close> when the divisor, the product of
  the two magnitudes, is zero.
\<close>

definition py_sum :: "'e float_ops \<Rightarrow> pyfloat list \<Rightarrow> pyfloat" where
  "py_sum fl xs = (if xs = [] then 0 else float_sum fl xs)"

definition cosine_similarity :: "'e float_ops \<Rightarrow> vector \<Rightarrow> vector \<Rightarrow> error + pyfloat" where
  "cosine_similarity fl vec1 vec2 =
     (let dot_product = py_sum fl (map (\<lambda>(a, b). float_mul fl a b) (zip vec1 vec2))
      in case float_sqrt fl (py_sum fl (map (\<lambda>a. float_mul fl a a) vec1)) of
           Inl e \<Rightarrow> Inl e
         | Inr magnitude1 \<Rightarrow>
             (case float_sqrt fl (py_sum fl (map (\<lambda>a. float_mul fl a a) vec2)) of
                Inl e \<Rightarrow> Inl e
              | Inr magnitude2 \<Rightarrow>
                  if magnitude1 = 0 \<or> magnitude2 = 0 then Inr 0
                  else (let divisor = float_mul fl magnitude1 magnitude2
                        in if divisor = 0 then Inl (ZeroDivisionError ''float division by zero'')
                           else Inr (float_div fl dot_product divisor))))"

text \<open>
  The loop over \<open>embeddings_data.items()\<close>: the records of the document, in stored order.
  An exception of \<open>_cosine_similarity\<close> ends the loop.
\<close>

fun similarities_loop ::
  "'e float_ops \<Rightarrow> vector \<Rightarrow> int \<Rightarrow> (string, chunk_data) dict \<Rightarrow> error + similarity_entry list" where
  "similarities_loop fl query_embedding document_id [] = Inr []"
| "similarities_loop fl query_embedding document_id ((chunk_id, cd) # d) =
     (if cd_document_id cd = document_id
      then (case cosine_similarity fl query_embedding (cd_embedding cd) of
              Inl e \<Rightarrow> Inl e
            | Inr similarity \<Rightarrow>
                (case similarities_loop fl query_embedding document_id d of
                   Inl e \<Rightarrow> Inl e
                 | Inr similarities \<Rightarrow>
                     Inr (\<lparr>se_id = chunk_id, se_similarity = similarity, se_data = cd\<rparr>
                            # similarities)))
      else similarities_loop fl query_embedding document_id d)"

text \<open>
  \<open>similarities.sort(key=lambda x: x['similarity'], reverse=True)\<close>. When no key is nan the
  keys are totally ordered and Python's sort is stable also with \<open>reverse=True\<close>, that is,
  entries with equal keys keep their order: this is the stable insertion sort on a key
  that reverses the order of the floats. With a nan among the keys the result is
  \<open>sort_with_nan\<close>.
\<close>

definition reverse_key :: "pyfloat \<Rightarrow> int \<times> real" where
  "reverse_key x = (case x of PosInf \<Rightarrow> (0, 0) | Finite r \<Rightarrow> (1, - r) | NegInf \<Rightarrow> (2, 0) | NaN \<Rightarrow> (3, 0))"

definition sort_by_similarity_reverse ::
  "similarity_entry float_ops \<Rightarrow> similarity_entry list \<Rightarrow> similarity_entry list" where
  "sort_by_similarity_reverse fl xs =
     (if list_ex (\<lambda>x. se_similarity x = NaN) xs then sort_with_nan fl xs
      else sort_key (\<lambda>x. reverse_key (se_similarity x)) xs)"

definition format_result :: "similarity_entry \<Rightarrow> similar_chunk" where
  "format_result result =
     \<lparr>sc_id = se_id result,
      sc_text = cd_text (se_data result),
      sc_similarity = se_similarity result,
      sc_chunk_index = cd_chunk_index (se_data result),
      sc_page_numbers = cd_page_numbers (se_data result),
      sc_token_count = cd_token_count (se_data result)\<rparr>"

text \<open>
  \<open>response.data[0]\<close> raises \<open>IndexError\<close> on an empty response; \<open>similarities[:num_results]\<close>
  is a Python slice. The stored mapping is only read.
\<close>

definition search_similar_chunks ::
  "similarity_entry float_ops \<Rightarrow> embedding_client \<Rightarrow> vector_store \<Rightarrow> string \<Rightarrow> int \<Rightarrow> int
     \<Rightarrow> (error + similar_chunk list) \<times> vector_store" where
  "search_similar_chunks fl client vs query document_id num_results =
     (let (response, vs1) = embeddings_create client vs [query]
      in case response of
           Inl e \<Rightarrow> (Inl e, vs1)
         | Inr [] \<Rightarrow> (Inl (IndexError ''list index out of range''), vs1)
         | Inr (query_embedding # _) \<Rightarrow>
             (case similarities_loop fl query_embedding document_id (embeddings_data vs1) of
                Inl e \<Rightarrow> (Inl e, vs1)
              | Inr similarities \<Rightarrow>
                  (let top_results = slice_to num_results (sort_by_similarity_reverse fl similarities)
                   in (Inr (map format_result top_results), vs1))))"


section \<open>processing.py\<close>

subsection \<open>Strings and regular expressions\<close>

text \<open>
  Characters are code points below 256. \<open>is_space\<close> is the whitespace of \<open>str.strip()\<close> and
  of \<open>\s\<close> in a \<open>str\<close> pattern; \<open>is_digit\<close> is \<open>\d\<close> in that range.
\<close>

definition is_space :: "char \<Rightarrow> bool" where
  "is_space c \<longleftrightarrow>
     c \<in> set [CHR 0x09, CHR 0x0A, CHR 0x0B, CHR 0x0C, CHR 0x0D,
              CHR 0x1C, CHR 0x1D, CHR 0x1E, CHR 0x1F, CHR 0x20, CHR 0x85, CHR 0xA0]"

definition is_digit :: "char \<Rightarrow> bool" where
  "is_digit c \<longleftrightarrow> c \<in> set ''0123456789''"

definition strip :: "string \<Rightarrow> string" where
  "strip s = rev (dropWhile is_space (rev (dropWhile is_space s)))"

text \<open>\<open>re.sub(r'\s+', ' ', text)\<close>: every maximal run of whitespace becomes one space.\<close>

function collapse_whitespace :: "string \<Rightarrow> string" where
  "collapse_whitespace [] = []"
| "collapse_whitespace (c # cs) =
     (if is_space c then CHR '' '' # collapse_whitespace (dropWhile is_space cs)
      else c # collapse_whitespace cs)"
  by pat_completeness auto
termination
  by (relation "measure length") (auto simp: length_dropWhile_le less_Suc_eq_le)

text \<open>
  A match of \<open>\[Page \d+\]\<close> at the start of a string: the digits and the text after the
  closing bracket.
\<close>

definition match_page_marker :: "string \<Rightarrow> (string \<times> string) option" where
  "match_page_marker s =
     (if take 6 s = ''[Page '' then
        (let digits = takeWhile is_digit (drop 6 s);
             rest = dropWhile is_digit (drop 6 s)
         in case rest of
              [] \<Rightarrow> None
            | c # rest' \<Rightarrow> if digits \<noteq> [] \<and> c = CHR '']'' then Some (digits, rest') else None)
      else None)"

lemma match_page_marker_shorter:
  "match_page_marker s = Some (digits, rest) \<Longrightarrow> length rest < length s"
proof -
  assume m: "match_page_marker s = Some (digits, rest)"
  then obtain c where "dropWhile is_digit (drop 6 s) = c # rest"
    by (auto simp: match_page_marker_def Let_def split: if_splits list.splits)
  then have "length (dropWhile is_digit (drop 6 s)) = Suc (length rest)" by simp
  moreover have "length (dropWhile is_digit (drop 6 s)) \<le> length (drop 6 s)"
    by (rule length_dropWhile_le)
  ultimately show ?thesis by simp
qed

text \<open>
  \<open>re.sub(r'\[Page \d+\]', '', text)\<close>: the scan goes from left to right, drops each match
  and resumes after it; what it has produced is not scanned again.
\<close>

function remove_page_markers :: "string \<Rightarrow> string" where
  "remove_page_markers [] = []"
| "remove_page_markers (c # cs) =
     (case match_page_marker (c # cs) of
        Some (digits, rest) \<Rightarrow> remove_page_markers rest
      | None \<Rightarrow> c # remove_page_markers cs)"
  by pat_completeness auto
termination
proof (relation "measure length")
  show "wf (measure length)" by simp
next
  fix c cs x2 x y
  assume "match_page_marker (c # cs) = Some x2" "(x, y) = x2"
  then have "match_page_marker (c # cs) = Some (x, y)" by simp
  then have "length y < length (c # cs)" by (rule match_page_marker_shorter)
  then show "(y, c # cs) \<in> measure length" by simp
next
  fix c cs
  show "(cs, c # cs) \<in> measure length" by simp
qed

text \<open>\<open>re.findall(r'\[Page (\d+)\]', text)\<close>: the digit groups of the matches, in order.\<close>

function findall_page_markers :: "string \<Rightarrow> string list" where
  "findall_page_markers [] = []"
| "findall_page_markers (c # cs) =
     (case match_page_marker (c # cs) of
        Some (digits, rest) \<Rightarrow> digits # findall_page_markers rest
      | None \<Rightarrow> findall_page_markers cs)"
  by pat_completeness auto
termination
proof (relation "measure length")
  show "wf (measure length)" by simp
next
  fix c cs x2 x y
  assume "match_page_marker (c # cs) = Some x2" "(x, y) = x2"
  then have "match_page_marker (c # cs) = Some (x, y)" by simp
  then have "length y < length (c # cs)" by (rule match_page_marker_shorter)
  then show "(y, c # cs) \<in> measure length" by simp
next
  fix c cs
  show "(cs, c # cs) \<in> measure length" by simp
qed

text \<open>\<open>int(page)\<close> on a string of digits.\<close>

definition digit_value :: "char \<Rightarrow> int" where
  "digit_value c = int (of_char c) - 48"

definition int_of_str :: "string \<Rightarrow> int" where
  "int_of_str s = foldl (\<lambda>n c. 10 * n + digit_value c) 0 s"

text \<open>
  \<open>re.split(r'[.!?]+', text)\<close>: the pieces between the maximal runs of terminators, the
  empty pieces at both ends included.
\<close>

definition is_terminator :: "char \<Rightarrow> bool" where
  "is_terminator c \<longleftrightarrow> c = CHR ''.'' \<or> c = CHR ''!'' \<or> c = CHR ''?''"

function re_split_terminators :: "string \<Rightarrow> string list" where
  "re_split_terminators [] = [[]]"
| "re_split_terminators (c # cs) =
     (if is_terminator c then [] # re_split_terminators (dropWhile is_terminator cs)
      else (case re_split_terminators cs of
              [] \<Rightarrow> [[c]]
            | piece # pieces \<Rightarrow> (c # piece) # pieces))"
  by pat_completeness auto
termination
  by (relation "measure length") (auto simp: length_dropWhile_le less_Suc_eq_le)

text \<open>\<open>text.split()\<close>: the maximal runs of characters that are not whitespace.\<close>

function py_split :: "string \<Rightarrow> string list" where
  "py_split s =
     (case dropWhile is_space s of
        [] \<Rightarrow> []
      | c # cs \<Rightarrow> takeWhile (\<lambda>x. \<not> is_space x) (c # cs)
                  # py_split (dropWhile (\<lambda>x. \<not> is_space x) (c # cs)))"
  by pat_completeness auto
termination
proof (relation "measure length")
  show "wf (measure length)" by simp
next
  fix s :: string and c cs
  assume a: "dropWhile is_space s = c # cs"
  then have "\<not> is_space c" using hd_dropWhile[of is_space s] by auto
  then have "dropWhile (\<lambda>x. \<not> is_space x) (c # cs) = dropWhile (\<lambda>x. \<not> is_space x) cs" by simp
  moreover have "length (dropWhile (\<lambda>x. \<not> is_space x) cs) \<le> length cs"
    by (rule length_dropWhile_le)
  moreover have "length (dropWhile is_space s) \<le> length s" by (rule length_dropWhile_le)
  ultimately have "length (dropWhile (\<lambda>x. \<not> is_space x) (c # cs)) < length s"
    using a by simp
  then show "(dropWhile (\<lambda>x. \<not> is_space x) (c # cs), s) \<in> measure length" by simp
qed

declare py_split.simps [simp del]

subsection \<open>Text extraction\<close>

text \<open>
  What the file libraries hand to the extractors is a parameter: the text of the file read
  as UTF-8, the per-page results of \<open>page.extract_text()\<close> of the PDF reader, the paragraph
  texts of the DOCX reader, each possibly an exception raised on opening or parsing.
\<close>

record file_source =
  open_txt :: "error + string"
  open_pdf :: "error + (error + string) list"
  open_docx :: "error + string list"

definition estimate_page_count :: "string \<Rightarrow> int" where
  "estimate_page_count content = max 1 (int (length (py_split content)) div 500)"

definition extract_from_txt :: "file_source \<Rightarrow> error + string \<times> int" where
  "extract_from_txt source =
     (case open_txt source of
        Inl e \<Rightarrow> Inl e
      | Inr content \<Rightarrow> Inr (content, estimate_page_count content))"

text \<open>
  The page loop of \<open>_extract_from_pdf\<close>: a page whose extraction raises is skipped, a page
  with text is appended under its marker \<open>[Page n]\<close>.
\<close>

fun extract_pdf_pages :: "nat \<Rightarrow> (error + string) list \<Rightarrow> string \<Rightarrow> string" where
  "extract_pdf_pages page_num [] content = content"
| "extract_pdf_pages page_num (page # pages) content =
     (case page of
        Inl e \<Rightarrow> extract_pdf_pages (Suc page_num) pages content
      | Inr page_text \<Rightarrow>
          extract_pdf_pages (Suc page_num) pages
            (if strip page_text \<noteq> []
             then content @ [CHR 0x0A] @ ''[Page '' @ str_int (int page_num + 1) @ '']'' @ [CHR 0x0A]
                    @ page_text @ [CHR 0x0A]
             else content))"

definition extract_from_pdf :: "file_source \<Rightarrow> error + string \<times> int" where
  "extract_from_pdf source =
     (case open_pdf source of
        Inl e \<Rightarrow> Inl e
      | Inr pages \<Rightarrow> Inr (extract_pdf_pages 0 pages [], int (length pages)))"

definition extract_from_docx :: "file_source \<Rightarrow> error + string \<times> int" where
  "extract_from_docx source =
     (case open_docx source of
        Inl e \<Rightarrow> Inl e
      | Inr paragraphs \<Rightarrow>
          (let content = concat (map (\<lambda>paragraph. paragraph @ [CHR 0x0A])
                                   (filter (\<lambda>paragraph. strip paragraph \<noteq> []) paragraphs))
           in Inr (content, estimate_page_count content)))"

definition extract_text :: "file_source \<Rightarrow> string \<Rightarrow> error + string \<times> int" where
  "extract_text source file_type =
     (if file_type = ''txt'' \<or> file_type = ''md'' then extract_from_txt source
      else if file_type = ''pdf'' then extract_from_pdf source
      else if file_type = ''docx'' then extract_from_docx source
      else Inl (ValueError (''Unsupported file type: '' @ file_type)))"

subsection \<open>Chunking\<close>

text \<open>
  The fields of \<open>DocumentProcessor\<close>. The tokenizer is the external \<open>cl100k_base\<close> encoding of
  tiktoken: its \<open>encode\<close> and \<open>decode\<close> are parameters, over any type of tokens. The two
  sizes are the settings \<open>CHUNK_SIZE\<close> and \<open>CHUNK_OVERLAP\<close>.
\<close>

record 'tok document_processor =
  tokenizer_encode :: "string \<Rightarrow> 'tok list"
  tokenizer_decode :: "'tok list \<Rightarrow> string"
  chunk_size :: int
  chunk_overlap :: int

definition clean_text :: "string \<Rightarrow> string" where
  "clean_text content = strip (remove_page_markers (collapse_whitespace content))"

definition split_into_sentences :: "string \<Rightarrow> string list" where
  "split_into_sentences content =
     map strip (filter (\<lambda>s. strip s \<noteq> []) (re_split_terminators content))"

text \<open>\<open>tokens[-self.chunk_overlap:]\<close> is a Python slice: with an overlap of 0 it is all of \<open>tokens\<close>.\<close>

definition get_overlap_text :: "'tok document_processor \<Rightarrow> string \<Rightarrow> string" where
  "get_overlap_text p content =
     (let tokens = tokenizer_encode p content
      in if int (length tokens) \<le> chunk_overlap p then content
         else tokenizer_decode p (slice_from (- chunk_overlap p) tokens))"

definition extract_page_numbers :: "string \<Rightarrow> int list" where
  "extract_page_numbers content =
     (let page_matches = findall_page_markers content
      in if page_matches \<noteq> [] then map int_of_str page_matches else [1])"

definition create_chunk :: "'tok document_processor \<Rightarrow> string \<Rightarrow> int \<Rightarrow> int \<Rightarrow> chunk" where
  "create_chunk p content chunk_index document_id =
     \<lparr>ch_text = content,
      ch_chunk_index = chunk_index,
      ch_page_numbers = extract_page_numbers content,
      ch_token_count = int (length (tokenizer_encode p content)),
      ch_document_id = document_id\<rparr>"

text \<open>
  The local variables of \<open>chunk_text\<close> that its loop updates, and one iteration of the loop
  \<open>for sentence in sentences\<close>. A string is true when it is not empty.
\<close>

record chunker_state =
  chunks :: "chunk list"
  current_chunk :: string
  current_tokens :: int
  chunk_index :: int

definition chunk_step :: "'tok document_processor \<Rightarrow> int \<Rightarrow> chunker_state \<Rightarrow> string \<Rightarrow> chunker_state" where
  "chunk_step p document_id st sentence =
     (let sentence_tokens = int (length (tokenizer_encode p sentence))
      in if current_tokens st + sentence_tokens > chunk_size p \<and> current_chunk st \<noteq> []
         then
           (let overlap_text = get_overlap_text p (current_chunk st);
                new_chunk = overlap_text @ '' '' @ sentence
            in \<lparr>chunks = chunks st @
                   [create_chunk p (strip (current_chunk st)) (chunk_index st) document_id],
                current_chunk = new_chunk,
                current_tokens = int (length (tokenizer_encode p new_chunk)),
                chunk_index = chunk_index st + 1\<rparr>)
         else
           st\<lparr>current_chunk :=
                (if current_chunk st \<noteq> [] then current_chunk st @ '' '' @ sentence else sentence),
              current_tokens := current_tokens st + sentence_tokens\<rparr>)"

definition initial_state :: chunker_state where
  "initial_state = \<lparr>chunks = [], current_chunk = [], current_tokens = 0, chunk_index = 0\<rparr>"

definition chunk_text :: "'tok document_processor \<Rightarrow> string \<Rightarrow> int \<Rightarrow> chunk list" where
  "chunk_text p content document_id =
     (let sentences = split_into_sentences (clean_text content);
          st = foldl (chunk_step p document_id) initial_state sentences
      in if strip (current_chunk st) \<noteq> []
         then chunks st @ [create_chunk p (strip (current_chunk st)) (chunk_index st) document_id]
         else chunks st)"

section \<open>llm_service.py\<close>

datatype json =
    JNull
  | JBool bool
  | JNumber pyfloat
  | JString string
  | JArray "json list"
  | JObject "(string \<times> json) list"

text \<open>
  The generation capability and the JSON parser are parameters: \<open>chat_completions_create\<close>
  takes the system and the user prompt and raises or returns the \<open>message.content\<close> of each
  choice of the response (\<open>None\<close> is possible); \<open>json_loads\<close> raises or returns the parsed
  value.
\<close>

record llm_service =
  chat_completions_create :: "string \<Rightarrow> string \<Rightarrow> error + string option list"
  json_loads :: "string \<Rightarrow> error + json"

definition join :: "string \<Rightarrow> string list \<Rightarrow> string" where
  "join sep parts = (case parts of [] \<Rightarrow> [] | x # xs \<Rightarrow> x @ concat (map (\<lambda>y. sep @ y) xs))"

definition double_quote :: string where
  "double_quote = [CHR 0x22]"

fun prepare_context_parts :: "nat \<Rightarrow> similar_chunk list \<Rightarrow> string list" where
  "prepare_context_parts i [] = []"
| "prepare_context_parts i (c # cs) =
     (let page_info =
            (if sc_page_numbers c \<noteq> []
             then '' (Page '' @ join '', '' (map str_int (sc_page_numbers c)) @ '')''
             else [])
      in (''[Context '' @ str_nat i @ '']'' @ page_info @ '':'' @ [CHR 0x0A] @ sc_text c @ [CHR 0x0A])
           # prepare_context_parts (Suc i) cs)"

definition prepare_context :: "similar_chunk list \<Rightarrow> string" where
  "prepare_context cs = join [CHR 0x0A] (prepare_context_parts 1 cs)"

definition create_system_prompt :: string where
  "create_system_prompt =
     join [CHR 0x0A]
      [''You are a helpful AI assistant that answers questions based on provided document context. '',
       '''',
       ''Your task is to:'',
       ''1. Answer the user's question using ONLY the information provided in the context'',
       ''2. Be accurate and concise'',
       ''3. If the context doesn't contain enough information, say so clearly'',
       ''4. Provide a confidence score between 0.0 and 1.0 based on how well the context supports your answer'',
       ''5. Always respond in JSON format with the following structure:'',
       ''{'',
       ''    '' @ double_quote @ ''answer'' @ double_quote @ '': '' @ double_quote
          @ ''Your detailed answer here'' @ double_quote @ '','',
       ''    '' @ double_quote @ ''confidence'' @ double_quote @ '': 0.85,'',
       ''    '' @ double_quote @ ''reasoning'' @ double_quote @ '': '' @ double_quote
          @ ''Brief explanation of why you have this confidence level'' @ double_quote,
       ''}'',
       '''',
       ''Guidelines:'',
       ''- If the context clearly answers the question: confidence 0.8-1.0'',
       ''- If the context partially answers the question: confidence 0.4-0.7'',
       ''- If the context barely relates to the question: confidence 0.1-0.3'',
       ''- If the context doesn't help at all: confidence 0.0'',
       '''']"

definition create_user_prompt :: "string \<Rightarrow> string \<Rightarrow> string \<Rightarrow> string" where
  "create_user_prompt question context_text document_title =
     ''Document: '' @ double_quote @ document_title @ double_quote @ [CHR 0x0A, CHR 0x0A]
     @ ''Context:'' @ [CHR 0x0A] @ context_text @ [CHR 0x0A, CHR 0x0A]
     @ ''Question: '' @ question @ [CHR 0x0A, CHR 0x0A]
     @ ''Please answer the question based on the provided context. Remember to respond in JSON format with answer, confidence, and reasoning fields.''"

text \<open>
  \<open>round(x, 3)\<close>: a finite float to the nearest thousandth, ties to even, with the float
  read as a real; infinities and nan round to themselves.
\<close>

definition round3 :: "real \<Rightarrow> real" where
  "round3 x =
     (let y = x * 1000; f = floor y; r = y - of_int f
      in of_int (if r < 1 / 2 then f else if 1 / 2 < r then f + 1
                 else if even f then f else f + 1) / 1000)"

definition round_float3 :: "pyfloat \<Rightarrow> pyfloat" where
  "round_float3 x = (case x of Finite r \<Rightarrow> Finite (round3 r) | _ \<Rightarrow> x)"

definition format_source :: "similar_chunk \<Rightarrow> json" where
  "format_source c =
     JObject
      [(''chunk_index'', JNumber (Finite (of_int (sc_chunk_index c)))),
       (''page_numbers'', JArray (map (\<lambda>n. JNumber (Finite (of_int n))) (sc_page_numbers c))),
       (''text_preview'',
          JString (if length (sc_text c) > 200 then take 200 (sc_text c) @ ''...'' else sc_text c)),
       (''similarity'', JNumber (round_float3 (sc_similarity c))),
       (''token_count'', JNumber (Finite (of_int (sc_token_count c))))]"

definition format_sources :: "similar_chunk list \<Rightarrow> json" where
  "format_sources cs = JArray (map format_source cs)"

text \<open>\<open>result['sources'] = ...\<close>: only a dict accepts the assignment.\<close>

definition set_item :: "json \<Rightarrow> string \<Rightarrow> json \<Rightarrow> error + json" where
  "set_item obj key v =
     (case obj of
        JObject d \<Rightarrow> Inr (JObject (dict_set key v d))
      | JArray xs \<Rightarrow> Inl (TypeError ''list indices must be integers or slices, not str'')
      | _ \<Rightarrow> Inl (TypeError ''object does not support item assignment''))"

text \<open>
  \<open>generate_answer\<close>: the body of its \<open>try\<close> block, and the function with the handler
  \<open>except Exception\<close>, which logs and returns the fallback dictionary.
\<close>

definition generate_answer_try ::
  "llm_service \<Rightarrow> string \<Rightarrow> similar_chunk list \<Rightarrow> string \<Rightarrow> error + json" where
  "generate_answer_try svc question context_chunks document_title =
     (let context_text = prepare_context context_chunks;
          system_prompt = create_system_prompt;
          user_prompt = create_user_prompt question context_text document_title
      in case chat_completions_create svc system_prompt user_prompt of
           Inl e \<Rightarrow> Inl e
         | Inr [] \<Rightarrow> Inl (IndexError ''list index out of range'')
         | Inr (None # _) \<Rightarrow>
             Inl (TypeError ''the JSON object must be str, bytes or bytearray, not NoneType'')
         | Inr (Some content # _) \<Rightarrow>
             (case json_loads svc content of
                Inl e \<Rightarrow> Inl e
              | Inr result \<Rightarrow> set_item result ''sources'' (format_sources context_chunks)))"

definition fallback_answer :: "error \<Rightarrow> json" where
  "fallback_answer e =
     JObject
      [(''answer'',
          JString (''I apologize, but I encountered an error while processing your question: ''
                     @ str_error e)),
       (''confidence'', JNumber 0),
       (''sources'', JArray [])]"

definition generate_answer ::
  "llm_service \<Rightarrow> string \<Rightarrow> similar_chunk list \<Rightarrow> string \<Rightarrow> error + json" where
  "generate_answer svc question context_chunks document_title =
     (case generate_answer_try svc question context_chunks document_title of
        Inr result \<Rightarrow> Inr result
      | Inl e \<Rightarrow> Inr (fallback_answer e))"

text \<open>Reading a key of a parsed object.\<close>

definition json_get :: "json \<Rightarrow> string \<Rightarrow> json option" where
  "json_get obj key = (case obj of JObject d \<Rightarrow> dict_get d key | _ \<Rightarrow> None)"


section \<open>models.py, serializers.py and views.py\<close>

subsection \<open>File names\<close>

text \<open>
  \<open>str.lower()\<close> on code points below 256, \<open>name.split('.')[-1]\<close>, \<open>os.path.basename\<close> and
  \<open>os.path.splitext\<close> (an extension starts at the last dot of the last path component,
  unless only dots stand before it), and \<open>lstrip('.')\<close>.
\<close>

definition to_lower :: "char \<Rightarrow> char" where
  "to_lower c =
     (let n = (of_char c :: nat)
      in if (65 \<le> n \<and> n \<le> 90) \<or> (192 \<le> n \<and> n \<le> 222 \<and> n \<noteq> 215)
         then char_of (n + 32) else c)"

definition lower :: "string \<Rightarrow> string" where
  "lower s = map to_lower s"

definition last_dot_part :: "string \<Rightarrow> string" where
  "last_dot_part name = rev (takeWhile (\<lambda>c. c \<noteq> CHR ''.'') (rev name))"

definition basename :: "string \<Rightarrow> string" where
  "basename path = rev (takeWhile (\<lambda>c. c \<noteq> CHR ''/'') (rev path))"

definition splitext :: "string \<Rightarrow> string \<times> string" where
  "splitext path =
     (let directory = rev (dropWhile (\<lambda>c. c \<noteq> CHR ''/'') (rev path));
          reversed = rev (basename path);
          extension = takeWhile (\<lambda>c. c \<noteq> CHR ''.'') reversed;
          rest = dropWhile (\<lambda>c. c \<noteq> CHR ''.'') reversed
      in if rest = [] \<or> list_all (\<lambda>c. c = CHR ''.'') (tl rest) then (path, [])
         else (directory @ rev (tl rest), CHR ''.'' # rev extension))"

definition lstrip_dots :: "string \<Rightarrow> string" where
  "lstrip_dots s = dropWhile (\<lambda>c. c = CHR ''.'') s"

subsection \<open>The tables\<close>

datatype status = Uploading | Processing | Processed | Error

text \<open>
  An instance of \<open>Document\<close> that has its id, and an instance of \<open>DocumentChunk\<close>.
  \<open>file_size\<close> is \<open>None\<close> as long as nothing has been assigned to it: the field has no
  default. The database holds the rows of the two tables.
\<close>

record document =
  doc_id :: int
  doc_title :: string
  doc_file_name :: string
  doc_file_type :: string
  doc_file_size :: "int option"
  doc_page_count :: int
  doc_status :: status
  doc_error_message :: "string option"

record document_chunk =
  dc_document :: int
  dc_chunk_index :: int
  dc_text :: string
  dc_page_numbers :: "int list"
  dc_embedding_id :: string
  dc_token_count :: int

record database =
  document_rows :: "document list"
  chunk_rows :: "document_chunk list"

text \<open>
  The statements sent to the database. What the schema of \<open>models.py\<close> and of the migration
  requires is written out below: \<open>file_size\<close> is \<open>NOT NULL\<close>, and the pair (document,
  chunk_index) is unique among the chunk rows. Every other reason for which the database
  raises (a lost connection, a lock, a limit of the backend) is the parameter
  \<open>db_failure\<close> of the environment, which also holds the text with which the backend
  reports a constraint, the tokenizer settings, the embedding capability, and the file
  storage: \<open>store_file\<close> saves an uploaded file and returns the name under which it stands
  (\<open>documents/None/<name>\<close>, altered when that name is taken) or raises, \<open>open_file\<close> is what
  the extraction libraries find under a name. The stored files are not part of the state.
\<close>

datatype db_operation =
    Insert_document document
  | Update_document document
  | Insert_chunks "document_chunk list"
  | Select_chunks int

record 'tok ingest_env =
  processor :: "'tok document_processor"
  store_file :: "string \<Rightarrow> error + string"
  open_file :: "string \<Rightarrow> file_source"
  embedding_api :: embedding_client
  db_failure :: "db_operation \<Rightarrow> error option"
  constraint_message :: "string \<Rightarrow> string"

text \<open>The state of the system: the vector store and the database.\<close>

record ingest_state =
  store :: vector_store
  tables :: database

text \<open>
  \<open>Document.save()\<close> of \<open>models.py\<close>: the file type is set from the extension of the file
  name and an empty title from the file name; then the row is written. \<open>insert_document\<close>
  is the path of an instance without id (its \<open>doc_id\<close> is not read: the id is the next
  of the sequence): the file field saves the uploaded file in the storage while the
  statement is prepared, then the row is inserted. \<open>document_save\<close> is the path of an
  instance that has an id: the row with that id is replaced, and inserted when there is
  none. Both raise \<open>IntegrityError\<close> when \<open>file_size\<close> is \<open>None\<close>.
\<close>

definition set_file_type :: "document \<Rightarrow> document" where
  "set_file_type document =
     (if doc_file_name document \<noteq> []
      then document
             \<lparr>doc_file_type := lstrip_dots (lower (snd (splitext (doc_file_name document)))),
              doc_title := (if doc_title document = []
                            then fst (splitext (basename (doc_file_name document)))
                            else doc_title document)\<rparr>
      else document)"

definition next_id :: "database \<Rightarrow> int" where
  "next_id db = fold max (map doc_id (document_rows db)) 0 + 1"

definition insert_document ::
  "'tok ingest_env \<Rightarrow> database \<Rightarrow> document \<Rightarrow> error + document \<times> database" where
  "insert_document env db obj =
     (case store_file env (doc_file_name (set_file_type obj)) of
        Inl e \<Rightarrow> Inl e
      | Inr name \<Rightarrow>
          (let document = (set_file_type obj)\<lparr>doc_file_name := name\<rparr>
           in if doc_file_size document = None
              then Inl (IntegrityError (constraint_message env ''documents_document.file_size''))
              else (case db_failure env (Insert_document document) of
                      Some e \<Rightarrow> Inl e
                    | None \<Rightarrow>
                        (let row = document\<lparr>doc_id := next_id db\<rparr>
                         in Inr (row, db\<lparr>document_rows := document_rows db @ [row]\<rparr>)))))"

definition document_save ::
  "'tok ingest_env \<Rightarrow> database \<Rightarrow> document \<Rightarrow> error + document \<times> database" where
  "document_save env db obj =
     (let document = set_file_type obj
      in if doc_file_size document = None
         then Inl (IntegrityError (constraint_message env ''documents_document.file_size''))
         else (case db_failure env (Update_document document) of
                 Some e \<Rightarrow> Inl e
               | None \<Rightarrow>
                   Inr (document,
                        db\<lparr>document_rows :=
                             (if list_ex (\<lambda>r. doc_id r = doc_id document) (document_rows db)
                              then map (\<lambda>r. if doc_id r = doc_id document then document else r)
                                     (document_rows db)
                              else document_rows db @ [document])\<rparr>)))"

text \<open>
  \<open>DocumentChunk.objects.bulk_create\<close>: one statement, so either all rows are stored or
  none; an empty list sends no statement.
\<close>

definition bulk_create ::
  "'tok ingest_env \<Rightarrow> database \<Rightarrow> document_chunk list \<Rightarrow> error + database" where
  "bulk_create env db objects =
     (if objects = [] then Inr db
      else if \<not> distinct (map (\<lambda>r. (dc_document r, dc_chunk_index r)) (chunk_rows db @ objects))
      then Inl (IntegrityError
                  (constraint_message env ''documents_documentchunk.document_id, documents_documentchunk.chunk_index''))
      else (case db_failure env (Insert_chunks objects) of
              Some e \<Rightarrow> Inl e
            | None \<Rightarrow> Inr (db\<lparr>chunk_rows := chunk_rows db @ objects\<rparr>)))"

subsection \<open>The upload\<close>

text \<open>
  The data of an upload request: the title, and the name, the size and the content of the
  file. \<open>req_fields_valid\<close> is the verdict of the validators that the framework derives
  from the model fields (title present and at most 255 characters, a file with a name, a
  known extension); \<open>validate_file_path\<close> is the validator of \<open>DocumentUploadSerializer\<close>.
\<close>

record upload_request =
  req_title :: string
  req_file_name :: string
  req_file_size :: int
  req_fields_valid :: bool

definition allowed_extensions :: "string list" where
  "allowed_extensions = [''txt'', ''pdf'', ''docx'', ''md'']"

definition validate_file_path :: "upload_request \<Rightarrow> bool" where
  "validate_file_path request \<longleftrightarrow>
     req_file_name request \<noteq> [] \<and>
     \<not> req_file_size request > 10 * 1024 * 1024 \<and>
     lower (last_dot_part (req_file_name request)) \<in> set allowed_extensions"

definition is_valid :: "upload_request \<Rightarrow> bool" where
  "is_valid request \<longleftrightarrow> req_fields_valid request \<and> validate_file_path request"

text \<open>
  The responses: the HTTP status, and the entries \<open>success\<close>, \<open>message\<close> or \<open>error\<close>, and
  \<open>details\<close> of the body (the details of a rejected request and the serialized document
  are left out).
\<close>

record response =
  resp_status :: int
  resp_success :: bool
  resp_text :: string
  resp_details :: "string option"

definition chunk_objects :: "int \<Rightarrow> chunk list \<Rightarrow> string list \<Rightarrow> document_chunk list" where
  "chunk_objects document_id chunks_data embedding_ids =
     map (\<lambda>(chunk_data, embedding_id).
            \<lparr>dc_document = document_id,
             dc_chunk_index = ch_chunk_index chunk_data,
             dc_text = ch_text chunk_data,
             dc_page_numbers = ch_page_numbers chunk_data,
             dc_embedding_id = embedding_id,
             dc_token_count = ch_token_count chunk_data\<rparr>)
         (zip chunks_data embedding_ids)"

text \<open>
  \<open>_process_document\<close>. The instance \<open>document\<close> is an object that the function updates in
  place, so the caller sees its fields as they are when an exception leaves the function:
  the result carries the instance beside the outcome and the state.
\<close>

definition process_document ::
  "'tok ingest_env \<Rightarrow> ingest_state \<Rightarrow> document \<Rightarrow> (error + unit) \<times> document \<times> ingest_state" where
  "process_document env st document =
     (case extract_text (open_file env (doc_file_name document)) (doc_file_type document) of
        Inl e \<Rightarrow> (Inl e, document, st)
      | Inr (content, page_count) \<Rightarrow>
          (case document_save env (tables st) (document\<lparr>doc_page_count := page_count\<rparr>) of
             Inl e \<Rightarrow> (Inl e, set_file_type (document\<lparr>doc_page_count := page_count\<rparr>), st)
           | Inr (document1, db1) \<Rightarrow>
               (let st1 = st\<lparr>tables := db1\<rparr>;
                    chunks_data = chunk_text (processor env) content (doc_id document1)
                in if chunks_data = []
                   then (Inl (ValueError ''No chunks generated from document''), document1, st1)
                   else
                     (case add_chunks (embedding_api env) (store st1) chunks_data of
                        (Inl e, vs) \<Rightarrow> (Inl e, document1, st1\<lparr>store := vs\<rparr>)
                      | (Inr embedding_ids, vs) \<Rightarrow>
                          (let st2 = st1\<lparr>store := vs\<rparr>;
                               objects = chunk_objects (doc_id document1) chunks_data embedding_ids
                           in case bulk_create env (tables st2) objects of
                                Inl e \<Rightarrow> (Inl e, document1, st2)
                              | Inr db2 \<Rightarrow>
                                  (let st3 = st2\<lparr>tables := db2\<rparr>;
                                       document2 = document1\<lparr>doc_status := Processed,
                                                             doc_error_message := None\<rparr>
                                   in case document_save env db2 document2 of
                                        Inl e \<Rightarrow> (Inl e, set_file_type document2, st3)
                                      | Inr (document3, db3) \<Rightarrow>
                                          (Inr (), document3, st3\<lparr>tables := db3\<rparr>)))))))"

text \<open>
  The block \<open>with transaction.atomic()\<close> of \<open>upload_document\<close>: \<open>serializer.save()\<close> creates the
  instance from the validated title and file (all other fields at their defaults) and
  saves it; only then \<open>file_size\<close> and the status are assigned, and the instance is saved
  again. An exception rolls the block back, so the database is returned only on success.
\<close>

definition serializer_save ::
  "'tok ingest_env \<Rightarrow> database \<Rightarrow> upload_request \<Rightarrow> error + document \<times> database" where
  "serializer_save env db request =
     insert_document env db
       \<lparr>doc_id = 0, doc_title = req_title request, doc_file_name = req_file_name request,
        doc_file_type = [], doc_file_size = None, doc_page_count = 0,
        doc_status = Uploading, doc_error_message = None\<rparr>"

definition create_document ::
  "'tok ingest_env \<Rightarrow> database \<Rightarrow> upload_request \<Rightarrow> error + document \<times> database" where
  "create_document env db request =
     (case serializer_save env db request of
        Inl e \<Rightarrow> Inl e
      | Inr (document, db1) \<Rightarrow>
          document_save env db1
            (document\<lparr>doc_file_size := Some (req_file_size request), doc_status := Processing\<rparr>))"

text \<open>
  \<open>upload_document\<close>. The inner handler marks the document and saves it; an exception of
  that save, like one of the atomic block, reaches the outer handler.
  \<open>DocumentSerializer(document).data\<close> reads the chunk rows of the document and stands
  inside the inner \<open>try\<close>.
\<close>

definition upload_failed :: "error \<Rightarrow> response" where
  "upload_failed e =
     \<lparr>resp_status = 500, resp_success = False, resp_text = ''Failed to upload document'',
      resp_details = Some (str_error e)\<rparr>"

definition processing_failed ::
  "'tok ingest_env \<Rightarrow> ingest_state \<Rightarrow> document \<Rightarrow> error \<Rightarrow> response \<times> ingest_state" where
  "processing_failed env st document e =
     (case document_save env (tables st)
             (document\<lparr>doc_status := Error, doc_error_message := Some (str_error e)\<rparr>) of
        Inl e' \<Rightarrow> (upload_failed e', st)
      | Inr (document1, db1) \<Rightarrow>
          (\<lparr>resp_status = 500, resp_success = False,
            resp_text = ''Document uploaded but processing failed'',
            resp_details = Some (str_error e)\<rparr>,
           st\<lparr>tables := db1\<rparr>))"

definition upload_document ::
  "'tok ingest_env \<Rightarrow> ingest_state \<Rightarrow> upload_request \<Rightarrow> response \<times> ingest_state" where
  "upload_document env st request =
     (if \<not> is_valid request
      then (\<lparr>resp_status = 400, resp_success = False, resp_text = ''Invalid document data'',
             resp_details = None\<rparr>, st)
      else
        (case create_document env (tables st) request of
           Inl e \<Rightarrow> (upload_failed e, st)
         | Inr (document, db1) \<Rightarrow>
             (case process_document env (st\<lparr>tables := db1\<rparr>) document of
                (Inl e, document1, st1) \<Rightarrow> processing_failed env st1 document1 e
              | (Inr _, document1, st1) \<Rightarrow>
                  (case db_failure env (Select_chunks (doc_id document1)) of
                     Some e \<Rightarrow> processing_failed env st1 document1 e
                   | None \<Rightarrow>
                       (\<lparr>resp_status = 201, resp_success = True,
                         resp_text = ''Document uploaded and processed successfully'',
                         resp_details = None\<rparr>, st1)))))"


section \<open>Notions used in the statements\<close>

text \<open>
  The key of every entry is the one \<open>add_chunks\<close> derives from the \<open>document_id\<close> and the
  \<open>chunk_index\<close> of the record stored under it.
\<close>

definition key_consistent :: "(string, chunk_data) dict \<Rightarrow> bool" where
  "key_consistent d =
     list_all (\<lambda>(chunk_id, cd). chunk_id = chunk_id_of (cd_document_id cd) (cd_chunk_index cd)) d"

text \<open>The mutating operations of the store, and the store of a fresh \<open>VectorStore\<close>.\<close>

datatype store_op = Add_chunks "chunk list" | Delete_document_chunks int | Reset_collection

fun apply_op :: "embedding_client \<Rightarrow> vector_store \<Rightarrow> store_op \<Rightarrow> vector_store" where
  "apply_op client vs (Add_chunks batch) = snd (add_chunks client vs batch)"
| "apply_op client vs (Delete_document_chunks document_id) = snd (delete_document_chunks vs document_id)"
| "apply_op client vs Reset_collection = snd (reset_collection vs)"

definition empty_store :: vector_store where
  "empty_store = \<lparr>embeddings_data = [], api_calls = []\<rparr>"





section \<open>Example data\<close>

text \<open>
  An arithmetic that computes without rounding on finite numbers, for the examples: their
  vectors have the entries 0 and 1, on which the sums, products, quotients and square
  roots of binary floating point are exact as well. No example computes with an infinity
  or sorts a list with a nan.
\<close>

definition exact2 :: "(real \<Rightarrow> real \<Rightarrow> real) \<Rightarrow> pyfloat \<Rightarrow> pyfloat \<Rightarrow> pyfloat" where
  "exact2 f a b = (case (a, b) of (Finite x, Finite y) \<Rightarrow> Finite (f x y) | _ \<Rightarrow> NaN)"

definition exact_floats :: "'e float_ops" where
  "exact_floats =
     \<lparr>float_sum = foldl (exact2 (+)) (Finite 0),
      float_mul = exact2 (*),
      float_div = exact2 (/),
      float_sqrt = (\<lambda>a. case a of
                      Finite x \<Rightarrow> if x < 0 then Inl (ValueError ''math domain error'')
                                  else Inr (Finite (sqrt x))
                    | NegInf \<Rightarrow> Inl (ValueError ''math domain error'')
                    | _ \<Rightarrow> Inr a),
      sort_with_nan = (\<lambda>xs. xs)\<rparr>"

text \<open>Stored records and chunks, and an embedding capability that maps every text to \<open>[1.0]\<close>.\<close>

definition example_record :: "int \<Rightarrow> int \<Rightarrow> chunk_data" where
  "example_record document_id i =
     \<lparr>cd_embedding = [Finite 1], cd_text = ''text'', cd_document_id = document_id,
      cd_chunk_index = i, cd_page_numbers = [1], cd_token_count = 1\<rparr>"

definition two_document_store :: vector_store where
  "two_document_store =
     \<lparr>embeddings_data =
        [(''doc_1_chunk_0'', example_record 1 0),
         (''doc_2_chunk_0'', example_record 2 0),
         (''doc_1_chunk_1'', example_record 1 1)],
      api_calls = []\<rparr>"

definition example_chunk :: "int \<Rightarrow> int \<Rightarrow> chunk" where
  "example_chunk document_id i =
     \<lparr>ch_text = ''text'', ch_chunk_index = i, ch_page_numbers = [1],
      ch_token_count = 1, ch_document_id = document_id\<rparr>"

definition unit_client :: embedding_client where
  "unit_client n texts = Inr (map (\<lambda>t. [Finite 1]) texts)"

text \<open>
  A store whose records of document 1 differ in similarity to the query vector \<open>[1.0, 0.0]\<close>:
  the one stored first is orthogonal to it, the one stored last is parallel to it.
\<close>

definition axis_record :: "int \<Rightarrow> int \<Rightarrow> vector \<Rightarrow> chunk_data" where
  "axis_record document_id i v =
     \<lparr>cd_embedding = v, cd_text = ''text'', cd_document_id = document_id,
      cd_chunk_index = i, cd_page_numbers = [1], cd_token_count = 1\<rparr>"

definition ranked_store :: vector_store where
  "ranked_store =
     \<lparr>embeddings_data =
        [(''doc_1_chunk_0'', axis_record 1 0 [Finite 0, Finite 1]),
         (''doc_2_chunk_0'', axis_record 2 0 [Finite 1, Finite 0]),
         (''doc_1_chunk_1'', axis_record 1 1 [Finite 1, Finite 0])],
      api_calls = []\<rparr>"

definition axis_client :: embedding_client where
  "axis_client n texts = Inr (map (\<lambda>t. [Finite 1, Finite 0]) texts)"

text \<open>
  An embedding capability whose vectors tell the requests apart (the vector is the number
  of earlier requests), and a second version of the example chunks: other text, page
  numbers and token count under the same document ids and chunk indices.
\<close>

definition numbering_client :: embedding_client where
  "numbering_client n texts = Inr (map (\<lambda>t. [Finite (of_nat n)]) texts)"

definition revised_chunk :: "int \<Rightarrow> int \<Rightarrow> chunk" where
  "revised_chunk document_id i =
     \<lparr>ch_text = ''new text'', ch_chunk_index = i, ch_page_numbers = [2],
      ch_token_count = 2, ch_document_id = document_id\<rparr>"

definition revised_record :: "int \<Rightarrow> int \<Rightarrow> chunk_data" where
  "revised_record document_id i =
     \<lparr>cd_embedding = [Finite 1], cd_text = ''new text'', cd_document_id = document_id,
      cd_chunk_index = i, cd_page_numbers = [2], cd_token_count = 2\<rparr>"

definition tied_chunks :: "chunk list" where
  "tied_chunks = [example_chunk 1 1, example_chunk 1 0]"

text \<open>
  A tokenizer for the examples. As the encodings of tiktoken do for ordinary words, it
  makes a token of each word together with the space before it; a token is its text, and
  decoding concatenates.
\<close>

fun encode_words :: "string \<Rightarrow> string list" where
  "encode_words [] = []"
| "encode_words (c # cs) =
     (case encode_words cs of
        [] \<Rightarrow> [[c]]
      | t # ts \<Rightarrow> if take 1 t = '' '' then [c] # t # ts else (c # t) # ts)"

definition word_processor :: "int \<Rightarrow> int \<Rightarrow> string document_processor" where
  "word_processor limit overlap =
     \<lparr>tokenizer_encode = encode_words, tokenizer_decode = concat,
      chunk_size = limit, chunk_overlap = overlap\<rparr>"




text \<open>A PDF of two pages, and one whose first page has no text.\<close>

definition two_page_pdf :: file_source where
  "two_page_pdf =
     \<lparr>open_txt = Inr [], open_pdf = Inr [Inr ''Alpha.'', Inr ''Beta.''], open_docx = Inr []\<rparr>"

definition blank_first_page_pdf :: file_source where
  "blank_first_page_pdf =
     \<lparr>open_txt = Inr [], open_pdf = Inr [Inr '' '', Inr ''Beta.''], open_docx = Inr []\<rparr>"

definition two_page_text :: string where
  "two_page_text =
     [CHR 0x0A] @ ''[Page 1]'' @ [CHR 0x0A] @ ''Alpha.'' @ [CHR 0x0A] @
     [CHR 0x0A] @ ''[Page 2]'' @ [CHR 0x0A] @ ''Beta.'' @ [CHR 0x0A]"

definition second_page_text :: string where
  "second_page_text =
     [CHR 0x0A] @ ''[Page 2]'' @ [CHR 0x0A] @ ''Beta.'' @ [CHR 0x0A]"

text \<open>A generation capability that is down.\<close>

definition failing_service :: llm_service where
  "failing_service =
     \<lparr>chat_completions_create = (\<lambda>system_prompt user_prompt. Inl (ApiError ''Connection error.'')),
      json_loads = (\<lambda>content. Inl (JSONDecodeError ''Expecting value''))\<rparr>"

text \<open>
  An upload of a text file of 11 bytes into a system that holds document 2, with a
  database that refuses nothing but what the schema forbids.
\<close>

definition example_file :: file_source where
  "example_file =
     \<lparr>open_txt = Inr ''Alpha. Beta'',
      open_pdf = Inl (IOError ''not a PDF file''),
      open_docx = Inl (IOError ''not a DOCX file'')\<rparr>"

definition example_request :: upload_request where
  "example_request =
     \<lparr>req_title = ''Report'', req_file_name = ''report.txt'', req_file_size = 11,
      req_fields_valid = True\<rparr>"

definition example_state :: ingest_state where
  "example_state =
     \<lparr>store = \<lparr>embeddings_data = [(''doc_2_chunk_0'', example_record 2 0)], api_calls = []\<rparr>,
      tables =
        \<lparr>document_rows =
           [\<lparr>doc_id = 2, doc_title = ''Notes'', doc_file_name = ''documents/None/notes.txt'',
             doc_file_type = ''txt'', doc_file_size = Some 4, doc_page_count = 1,
             doc_status = Processed, doc_error_message = None\<rparr>],
         chunk_rows =
           [\<lparr>dc_document = 2, dc_chunk_index = 0, dc_text = ''text'', dc_page_numbers = [1],
             dc_embedding_id = ''doc_2_chunk_0'', dc_token_count = 1\<rparr>]\<rparr>\<rparr>"

definition working_env :: "string ingest_env" where
  "working_env =
     \<lparr>processor = word_processor 500 50,
      store_file = (\<lambda>name. Inr (''documents/None/'' @ name)), open_file = (\<lambda>name. example_file),
      embedding_api = unit_client, db_failure = (\<lambda>operation. None),
      constraint_message = (\<lambda>column. ''NOT NULL constraint failed: '' @ column)\<rparr>"

section \<open>Properties of the vector store\<close>

text \<open>
  C10: \<open>add_chunks\<close> on the empty chunk list returns the empty list and the state it was
  given: the mapping is untouched and no request to the embedding capability is recorded.
\<close>

theorem add_chunks_empty:
  "add_chunks client vs [] = (Inr [], vs)"
  by (simp add: add_chunks_def)

subsection \<open>Dictionary operations\<close>

lemma keys_dict_set:
  "keys (dict_set k v d) = (if k \<in> set (keys d) then keys d else keys d @ [k])"
proof (induction d)
  case Nil
  then show ?case by (simp add: keys_def)
next
  case (Cons p d)
  obtain k' v' where p: "p = (k', v')" by (cases p)
  from Cons p show ?case by (simp add: keys_def)
qed

lemma length_dict_set_present:
  "k \<in> set (keys d) \<Longrightarrow> length (dict_set k v d) = length d"
proof -
  assume "k \<in> set (keys d)"
  then have "length (keys (dict_set k v d)) = length (keys d)" by (simp add: keys_dict_set)
  then show ?thesis by (simp add: keys_def)
qed

lemma well_formed_dict_set:
  "well_formed_dict d \<Longrightarrow> well_formed_dict (dict_set k v d)"
  by (simp add: well_formed_dict_def keys_dict_set)

lemma set_dict_set_subset:
  "set (dict_set k v d) \<subseteq> insert (k, v) (set d)"
proof (induction d)
  case Nil
  then show ?case by simp
next
  case (Cons p d)
  obtain k' v' where p: "p = (k', v')" by (cases p)
  from Cons p show ?case by (cases "k' = k") auto
qed

lemma key_consistent_dict_set:
  "key_consistent d \<Longrightarrow> k = chunk_id_of (cd_document_id cd) (cd_chunk_index cd) \<Longrightarrow>
   key_consistent (dict_set k cd d)"
proof -
  assume a: "key_consistent d" and k: "k = chunk_id_of (cd_document_id cd) (cd_chunk_index cd)"
  have "\<And>p. p \<in> set (dict_set k cd d) \<Longrightarrow>
          (case p of (chunk_id, c) \<Rightarrow> chunk_id = chunk_id_of (cd_document_id c) (cd_chunk_index c))"
  proof -
    fix p assume "p \<in> set (dict_set k cd d)"
    with set_dict_set_subset have "p = (k, cd) \<or> p \<in> set d" by fastforce
    with a k show "case p of (chunk_id, c) \<Rightarrow> chunk_id = chunk_id_of (cd_document_id c) (cd_chunk_index c)"
      by (auto simp: key_consistent_def list_all_iff)
  qed
  then show ?thesis by (simp add: key_consistent_def list_all_iff)
qed

lemma add_chunks_loop_invariants:
  "add_chunks_loop data i cs ids d = (r, d') \<Longrightarrow>
   (well_formed_dict d \<longrightarrow> well_formed_dict d') \<and> (key_consistent d \<longrightarrow> key_consistent d')"
proof (induction cs arbitrary: i ids d)
  case Nil
  then show ?case by simp
next
  case (Cons c cs)
  show ?case
  proof (cases "i < length data")
    case True
    let ?k = "chunk_id_of (ch_document_id c) (ch_chunk_index c)"
    let ?cd = "\<lparr>cd_embedding = data ! i, cd_text = ch_text c,
                    cd_document_id = ch_document_id c, cd_chunk_index = ch_chunk_index c,
                    cd_page_numbers = ch_page_numbers c, cd_token_count = ch_token_count c\<rparr>"
    from Cons.prems True
    have "add_chunks_loop data (Suc i) cs (ids @ [?k]) (dict_set ?k ?cd d) = (r, d')"
      by (simp add: Let_def)
    then have ih: "(well_formed_dict (dict_set ?k ?cd d) \<longrightarrow> well_formed_dict d') \<and>
               (key_consistent (dict_set ?k ?cd d) \<longrightarrow> key_consistent d')"
      by (rule Cons.IH)
    have k: "key_consistent d \<Longrightarrow> key_consistent (dict_set ?k ?cd d)"
      by (rule key_consistent_dict_set) simp_all
    have w: "well_formed_dict d \<Longrightarrow> well_formed_dict (dict_set ?k ?cd d)"
      by (rule well_formed_dict_set)
    from ih k w show ?thesis by blast
  next
    case False
    with Cons.prems show ?thesis by (simp add: Let_def)
  qed
qed

lemma add_chunks_unfold:
  "cs \<noteq> [] \<Longrightarrow>
   add_chunks client vs cs =
     (case client (length (api_calls vs)) (map ch_text cs) of
        Inl e \<Rightarrow> (Inl e, vs\<lparr>api_calls := api_calls vs @ [map ch_text cs]\<rparr>)
      | Inr data \<Rightarrow>
          (fst (add_chunks_loop data 0 cs [] (embeddings_data vs)),
           vs\<lparr>api_calls := api_calls vs @ [map ch_text cs],
              embeddings_data := snd (add_chunks_loop data 0 cs [] (embeddings_data vs))\<rparr>))"
  by (simp add: add_chunks_def embeddings_create_def Let_def split: sum.split prod.split)

lemma add_chunks_invariants:
  assumes "add_chunks client vs cs = (r, vs')"
  shows "(well_formed_dict (embeddings_data vs) \<longrightarrow> well_formed_dict (embeddings_data vs')) \<and>
         (key_consistent (embeddings_data vs) \<longrightarrow> key_consistent (embeddings_data vs'))"
proof (cases "cs = []")
  case True
  with assms show ?thesis by (simp add: add_chunks_def)
next
  case False
  show ?thesis
  proof (cases "client (length (api_calls vs)) (map ch_text cs)")
    case (Inl e)
    with assms False have "embeddings_data vs' = embeddings_data vs"
      by (auto simp: add_chunks_unfold)
    then show ?thesis by simp
  next
    case (Inr data)
    obtain r' d' where l: "add_chunks_loop data 0 cs [] (embeddings_data vs) = (r', d')"
      by (cases "add_chunks_loop data 0 cs [] (embeddings_data vs)")
    with assms False Inr have "embeddings_data vs' = d'"
      by (auto simp: add_chunks_unfold)
    with add_chunks_loop_invariants[OF l] show ?thesis by simp
  qed
qed

lemma chunks_to_delete_eq:
  "chunks_to_delete d did = map fst (filter (\<lambda>p. cd_document_id (snd p) = did) d)"
proof (induction d)
  case Nil
  then show ?case by simp
next
  case (Cons p d)
  obtain k' v' where p: "p = (k', v')" by (cases p)
  from Cons p show ?case by simp
qed

lemma dict_del_filter:
  "distinct (map fst d) \<Longrightarrow> k \<in> fst ` set d \<Longrightarrow> dict_del k d = Some (filter (\<lambda>p. fst p \<noteq> k) d)"
proof (induction d)
  case Nil
  then show ?case by simp
next
  case (Cons p d)
  obtain k' v' where p: "p = (k', v')" by (cases p)
  show ?case
  proof (cases "k' = k")
    case True
    from Cons.prems(1) p True have "k \<notin> fst ` set d" by simp
    then have "\<forall>q\<in>set d. fst q \<noteq> k" by force
    then have "filter (\<lambda>p. fst p \<noteq> k) d = d" by (simp add: filter_id_conv)
    with True p show ?thesis by simp
  next
    case False
    from Cons.prems p False have "distinct (map fst d)" "k \<in> fst ` set d" by simp_all
    then have "dict_del k d = Some (filter (\<lambda>p. fst p \<noteq> k) d)" by (rule Cons.IH)
    with False p show ?thesis by simp
  qed
qed

lemma delete_keys_filter:
  "distinct (map fst d) \<Longrightarrow> distinct ks \<Longrightarrow> set ks \<subseteq> fst ` set d \<Longrightarrow>
   delete_keys ks d = Inr (filter (\<lambda>p. fst p \<notin> set ks) d)"
proof (induction ks arbitrary: d)
  case Nil
  then show ?case by simp
next
  case (Cons k ks)
  let ?d' = "filter (\<lambda>p. fst p \<noteq> k) d"
  from Cons.prems have "k \<in> fst ` set d" by simp
  with Cons.prems(1) have del: "dict_del k d = Some ?d'" by (rule dict_del_filter)
  have d1: "distinct (map fst ?d')"
    using Cons.prems(1) by (rule distinct_map_filter)
  have "\<And>x. x \<in> set ks \<Longrightarrow> x \<in> fst ` set ?d'"
  proof -
    fix x assume x: "x \<in> set ks"
    with Cons.prems(2) have "x \<noteq> k" by auto
    moreover from x Cons.prems(3) obtain q where q: "q \<in> set d" "fst q = x" by auto
    ultimately have "q \<in> set ?d'" by simp
    then have "fst q \<in> fst ` set ?d'" by (rule imageI)
    with q show "x \<in> fst ` set ?d'" by simp
  qed
  then have d2: "set ks \<subseteq> fst ` set ?d'" by blast
  from Cons.prems(2) have d3: "distinct ks" by simp
  have "delete_keys ks ?d' = Inr (filter (\<lambda>p. fst p \<notin> set ks) ?d')"
    using d1 d3 d2 by (rule Cons.IH)
  moreover have "filter (\<lambda>p. fst p \<notin> set ks) ?d' = filter (\<lambda>p. fst p \<notin> set (k # ks)) d"
    by (simp add: conj_commute)
  ultimately show ?case using del by simp
qed

lemma delete_keys_of_document:
  assumes "distinct (map fst d)"
  shows "delete_keys (chunks_to_delete d did) d = Inr (filter (\<lambda>p. cd_document_id (snd p) \<noteq> did) d)"
proof -
  let ?ks = "map fst (filter (\<lambda>p. cd_document_id (snd p) = did) d)"
  have dk: "distinct ?ks" using assms by (rule distinct_map_filter)
  have sub: "set ?ks \<subseteq> fst ` set d" by auto
  have "delete_keys ?ks d = Inr (filter (\<lambda>p. fst p \<notin> set ?ks) d)"
    using assms dk sub by (rule delete_keys_filter)
  moreover have "filter (\<lambda>p. fst p \<notin> set ?ks) d = filter (\<lambda>p. cd_document_id (snd p) \<noteq> did) d"
  proof (rule filter_cong[OF refl])
    fix p assume p: "p \<in> set d"
    show "(fst p \<notin> set ?ks) = (cd_document_id (snd p) \<noteq> did)"
    proof
      assume n: "fst p \<notin> set ?ks"
      show "cd_document_id (snd p) \<noteq> did"
      proof
        assume "cd_document_id (snd p) = did"
        with p have "p \<in> set (filter (\<lambda>p. cd_document_id (snd p) = did) d)" by simp
        then have "fst p \<in> set ?ks" by (simp only: set_map) (rule imageI)
        with n show False by contradiction
      qed
    next
      assume n: "cd_document_id (snd p) \<noteq> did"
      show "fst p \<notin> set ?ks"
      proof
        assume "fst p \<in> set ?ks"
        then obtain q where q: "q \<in> set d" "cd_document_id (snd q) = did" "fst q = fst p" by auto
        from assms have "inj_on fst (set d)" by (simp add: distinct_map)
        from this q(3) q(1) p have "q = p" by (rule inj_onD)
        with q n show False by simp
      qed
    qed
  qed
  ultimately show ?thesis by (simp add: chunks_to_delete_eq)
qed

lemma dict_del_subset: "dict_del k d = Some d' \<Longrightarrow> set d' \<subseteq> set d"
proof (induction d arbitrary: d')
  case Nil
  then show ?case by simp
next
  case (Cons p d)
  obtain k' v' where p: "p = (k', v')" by (cases p)
  show ?case
  proof (cases "k' = k")
    case True
    with Cons.prems p show ?thesis by auto
  next
    case False
    with Cons.prems p obtain d'' where d'': "dict_del k d = Some d''" "d' = (k', v') # d''"
      by auto
    from Cons.IH[OF d''(1)] d''(2) p show ?thesis by auto
  qed
qed

lemma delete_keys_subset: "delete_keys ks d = Inr d' \<Longrightarrow> set d' \<subseteq> set d"
proof (induction ks arbitrary: d)
  case Nil
  then show ?case by simp
next
  case (Cons k ks)
  show ?case
  proof (cases "dict_del k d")
    case None
    with Cons.prems show ?thesis by simp
  next
    case (Some d1)
    with Cons.prems have "delete_keys ks d1 = Inr d'" by simp
    then have "set d' \<subseteq> set d1" by (rule Cons.IH)
    moreover from Some have "set d1 \<subseteq> set d" by (rule dict_del_subset)
    ultimately show ?thesis by blast
  qed
qed

lemma key_consistent_subset:
  "key_consistent d \<Longrightarrow> set d' \<subseteq> set d \<Longrightarrow> key_consistent d'"
  unfolding key_consistent_def list_all_iff by blast

lemma delete_document_chunks_key_consistent:
  assumes "key_consistent (embeddings_data vs)"
  shows "key_consistent (embeddings_data (snd (delete_document_chunks vs did)))"
proof (cases "delete_keys (chunks_to_delete (embeddings_data vs) did) (embeddings_data vs)")
  case (Inl e)
  with assms show ?thesis by (simp add: delete_document_chunks_def)
next
  case (Inr d)
  then have "set d \<subseteq> set (embeddings_data vs)" by (rule delete_keys_subset)
  with assms have "key_consistent d" by (rule key_consistent_subset)
  with Inr show ?thesis by (simp add: delete_document_chunks_def)
qed

lemma apply_op_key_consistent:
  assumes "key_consistent (embeddings_data vs)"
  shows "key_consistent (embeddings_data (apply_op client vs op))"
proof (cases op)
  case (Add_chunks cs)
  obtain r vs' where a: "add_chunks client vs cs = (r, vs')" by (cases "add_chunks client vs cs")
  from add_chunks_invariants[OF a] assms have "key_consistent (embeddings_data vs')" by simp
  with a Add_chunks show ?thesis by simp
next
  case (Delete_document_chunks did)
  with assms show ?thesis by (simp add: delete_document_chunks_key_consistent)
next
  case Reset_collection
  then show ?thesis by (simp add: reset_collection_def key_consistent_def)
qed

lemma foldl_apply_op_key_consistent:
  "key_consistent (embeddings_data vs) \<Longrightarrow>
   key_consistent (embeddings_data (foldl (apply_op client) vs ops))"
proof (induction ops arbitrary: vs)
  case Nil
  then show ?case by simp
next
  case (Cons op ops)
  from Cons.prems have "key_consistent (embeddings_data (apply_op client vs op))"
    by (rule apply_op_key_consistent)
  then have "key_consistent (embeddings_data (foldl (apply_op client) (apply_op client vs op) ops))"
    by (rule Cons.IH)
  then show ?case by simp
qed

text \<open>
  C9: in every store reached from the empty store by a sequence of \<open>add_chunks\<close>,
  \<open>delete_document_chunks\<close> and \<open>reset_collection\<close> calls, whatever the embedding
  capability answers, each key is \<open>doc_<d>_chunk_<i>\<close> for the \<open>document_id\<close> d and the
  \<open>chunk_index\<close> i of the record stored under it; and each of the three operations
  preserves this from any store that has it.
\<close>

theorem store_keys_consistent:
  "key_consistent (embeddings_data (foldl (apply_op client) empty_store ops)) \<and>
   (key_consistent (embeddings_data vs) \<longrightarrow>
      key_consistent (embeddings_data (apply_op client vs op)))"
proof
  have "key_consistent (embeddings_data empty_store)"
    by (simp add: empty_store_def key_consistent_def)
  then show "key_consistent (embeddings_data (foldl (apply_op client) empty_store ops))"
    by (rule foldl_apply_op_key_consistent)
next
  show "key_consistent (embeddings_data vs) \<longrightarrow>
      key_consistent (embeddings_data (apply_op client vs op))"
    using apply_op_key_consistent by blast
qed

lemma str_int_digit [simp]:
  "str_int 0 = ''0''" "str_int 1 = ''1''" "str_int 2 = ''2''" "str_int 3 = ''3''"
  by (simp_all add: str_int_def str_nat.simps digit_char_def)

lemma example_add:
  "add_chunks unit_client empty_store [example_chunk 1 0, example_chunk 2 0, example_chunk 1 1]
   = (Inr [''doc_1_chunk_0'', ''doc_2_chunk_0'', ''doc_1_chunk_1''],
      two_document_store\<lparr>api_calls := [[''text'', ''text'', ''text'']]\<rparr>)"
  by (simp add: add_chunks_def embeddings_create_def empty_store_def unit_client_def Let_def
      example_chunk_def chunk_id_of_def two_document_store_def example_record_def)

theorem store_keys_consistent_witness:
  "embeddings_data (foldl (apply_op unit_client) empty_store
       [Add_chunks [example_chunk 1 0, example_chunk 2 0, example_chunk 1 1]])
     = embeddings_data two_document_store \<and>
   key_consistent (embeddings_data two_document_store) \<and>
   key_consistent (embeddings_data (apply_op unit_client two_document_store (Delete_document_chunks 2)))"
proof -
  have e: "embeddings_data (foldl (apply_op unit_client) empty_store
       [Add_chunks [example_chunk 1 0, example_chunk 2 0, example_chunk 1 1]])
     = embeddings_data two_document_store"
    by (simp add: example_add)
  have k: "key_consistent (embeddings_data (foldl (apply_op unit_client) empty_store
       [Add_chunks [example_chunk 1 0, example_chunk 2 0, example_chunk 1 1]]))"
    using store_keys_consistent[of unit_client
        "[Add_chunks [example_chunk 1 0, example_chunk 2 0, example_chunk 1 1]]"
        two_document_store "Delete_document_chunks 2"] by (rule conjunct1)
  with e have k2: "key_consistent (embeddings_data two_document_store)" by simp
  have "key_consistent (embeddings_data two_document_store) \<longrightarrow>
      key_consistent (embeddings_data (apply_op unit_client two_document_store (Delete_document_chunks 2)))"
    using store_keys_consistent[of unit_client
        "[Add_chunks [example_chunk 1 0, example_chunk 2 0, example_chunk 1 1]]"
        two_document_store "Delete_document_chunks 2"] by (rule conjunct2)
  with k2 e show ?thesis by simp
qed

text \<open>
  C5 (amended): on a store whose keys are distinct, \<open>delete_document_chunks\<close> does not
  raise, removes exactly the records whose \<open>document_id\<close> is the given one and keeps the
  others in their order. What it returns is the bool \<open>len(chunks_to_delete) > 0\<close>, not the
  number of records removed; for a document with no record the call changes nothing and
  returns \<open>False\<close>.
\<close>

theorem delete_document_chunks_removes:
  assumes "well_formed_dict (embeddings_data vs)"
  shows "delete_document_chunks vs document_id =
           (Inr (0 < length (filter (\<lambda>p. cd_document_id (snd p) = document_id) (embeddings_data vs))),
            vs\<lparr>embeddings_data :=
                 filter (\<lambda>p. cd_document_id (snd p) \<noteq> document_id) (embeddings_data vs)\<rparr>) \<and>
         (filter (\<lambda>p. cd_document_id (snd p) = document_id) (embeddings_data vs) = [] \<longrightarrow>
            delete_document_chunks vs document_id = (Inr False, vs))"
proof -
  from assms have d: "distinct (map fst (embeddings_data vs))"
    by (simp add: well_formed_dict_def keys_def)
  have dk: "delete_keys (map fst (filter (\<lambda>p. cd_document_id (snd p) = document_id) (embeddings_data vs)))
              (embeddings_data vs)
            = Inr (filter (\<lambda>p. cd_document_id (snd p) \<noteq> document_id) (embeddings_data vs))"
    using delete_keys_of_document[OF d, of document_id] by (simp add: chunks_to_delete_eq)
  have g: "delete_document_chunks vs document_id =
           (Inr (0 < length (filter (\<lambda>p. cd_document_id (snd p) = document_id) (embeddings_data vs))),
            vs\<lparr>embeddings_data :=
                 filter (\<lambda>p. cd_document_id (snd p) \<noteq> document_id) (embeddings_data vs)\<rparr>)"
    by (simp add: delete_document_chunks_def Let_def chunks_to_delete_eq dk)
  have z: "filter (\<lambda>p. cd_document_id (snd p) = document_id) (embeddings_data vs) = [] \<longrightarrow>
            delete_document_chunks vs document_id = (Inr False, vs)"
  proof
    assume n: "filter (\<lambda>p. cd_document_id (snd p) = document_id) (embeddings_data vs) = []"
    then have "\<forall>p\<in>set (embeddings_data vs). cd_document_id (snd p) \<noteq> document_id"
      by (simp add: filter_empty_conv)
    then have "filter (\<lambda>p. cd_document_id (snd p) \<noteq> document_id) (embeddings_data vs)
                 = embeddings_data vs"
      by (simp add: filter_id_conv)
    with g n show "delete_document_chunks vs document_id = (Inr False, vs)" by simp
  qed
  from g z show ?thesis by (rule conjI)
qed

theorem delete_document_chunks_removes_witness:
  "well_formed_dict (embeddings_data two_document_store) \<and>
   delete_document_chunks two_document_store 1 =
     (Inr True, \<lparr>embeddings_data = [(''doc_2_chunk_0'', example_record 2 0)], api_calls = []\<rparr>) \<and>
   delete_document_chunks two_document_store 3 = (Inr False, two_document_store)"
proof -
  have wf: "well_formed_dict (embeddings_data two_document_store)"
    by (simp add: two_document_store_def well_formed_dict_def keys_def)
  from delete_document_chunks_removes[OF wf, of 1]
  have a: "delete_document_chunks two_document_store 1 =
     (Inr True, \<lparr>embeddings_data = [(''doc_2_chunk_0'', example_record 2 0)], api_calls = []\<rparr>)"
    by (simp add: two_document_store_def example_record_def)
  from delete_document_chunks_removes[OF wf, of 3]
  have b: "delete_document_chunks two_document_store 3 = (Inr False, two_document_store)"
    by (simp add: two_document_store_def example_record_def)
  from wf a b show ?thesis by simp
qed

text \<open>
  The claim as stated fails: two records of document 1 are removed and the value returned
  is \<open>True\<close>, which Python reads as the number 1, not as 2.
\<close>

theorem delete_returns_count_counterexample:
  "fst (delete_document_chunks two_document_store 1) = Inr True \<and>
   length (embeddings_data two_document_store)
     - length (embeddings_data (snd (delete_document_chunks two_document_store 1))) = 2 \<and>
   (of_bool True :: nat) \<noteq> 2"
  by (simp add: delete_document_chunks_def two_document_store_def example_record_def Let_def)

lemma similarities_loop_Inr:
  "similarities_loop fl q did d = Inr cands \<Longrightarrow>
   map (\<lambda>x. (se_id x, se_data x)) cands = filter (\<lambda>p. cd_document_id (snd p) = did) d \<and>
   (\<forall>x\<in>set cands. cosine_similarity fl q (cd_embedding (se_data x)) = Inr (se_similarity x))"
proof (induction d arbitrary: cands)
  case Nil
  then show ?case by auto
next
  case (Cons p d)
  obtain k cd where p: "p = (k, cd)" by (cases p)
  show ?case
  proof (cases "cd_document_id cd = did")
    case False
    with Cons p show ?thesis by simp
  next
    case True
    with Cons.prems p obtain s cands' where
      s: "cosine_similarity fl q (cd_embedding cd) = Inr s"
      and c: "similarities_loop fl q did d = Inr cands'"
      and e: "cands = \<lparr>se_id = k, se_similarity = s, se_data = cd\<rparr> # cands'"
      by (auto split: sum.splits)
    from Cons.IH[OF c] True p s e show ?thesis by simp
  qed
qed

lemma slice_to_nonneg: "0 \<le> n \<Longrightarrow> slice_to n xs = take (nat n) xs"
  by (simp add: slice_to_def)

lemma reverse_key_le:
  "a \<noteq> NaN \<Longrightarrow> b \<noteq> NaN \<Longrightarrow> reverse_key a \<le> reverse_key b \<longleftrightarrow> float_le b a"
  by (cases a; cases b) (simp_all add: reverse_key_def)

lemma reverse_key_inj: "reverse_key a = reverse_key b \<longleftrightarrow> a = b"
  by (cases a; cases b) (simp_all add: reverse_key_def)

lemma sort_without_nan:
  "\<forall>x\<in>set xs. se_similarity x \<noteq> NaN \<Longrightarrow>
   sort_by_similarity_reverse fl xs = sort_key (\<lambda>x. reverse_key (se_similarity x)) xs"
  by (simp add: sort_by_similarity_reverse_def list_ex_iff)

lemma sorted_desc_sort_by_similarity:
  assumes "\<forall>x\<in>set xs. se_similarity x \<noteq> NaN"
  shows "sorted_wrt (\<lambda>a b. float_le (se_similarity b) (se_similarity a))
           (sort_by_similarity_reverse fl xs)"
proof -
  let ?s = "sort_key (\<lambda>x. reverse_key (se_similarity x)) xs"
  have "sorted (map (\<lambda>x. reverse_key (se_similarity x)) ?s)"
    by (rule sorted_sort_key)
  then have "sorted_wrt (\<lambda>a b. reverse_key (se_similarity a) \<le> reverse_key (se_similarity b)) ?s"
    by (simp add: sorted_map)
  moreover have "\<And>a b. a \<in> set ?s \<Longrightarrow> b \<in> set ?s \<Longrightarrow>
      reverse_key (se_similarity a) \<le> reverse_key (se_similarity b) \<Longrightarrow>
      float_le (se_similarity b) (se_similarity a)"
    using assms by (simp add: reverse_key_le)
  ultimately have "sorted_wrt (\<lambda>a b. float_le (se_similarity b) (se_similarity a)) ?s"
    by (rule sorted_wrt_mono_rel[rotated])
  with assms show ?thesis by (simp add: sort_without_nan)
qed

lemma stable_sort_by_similarity:
  assumes "\<forall>x\<in>set xs. se_similarity x \<noteq> NaN"
  shows "filter (\<lambda>x. se_similarity x = s) (sort_by_similarity_reverse fl xs)
           = filter (\<lambda>x. se_similarity x = s) xs"
proof -
  have "filter (\<lambda>x. reverse_key (se_similarity x) = reverse_key s)
          (sort_key (\<lambda>x. reverse_key (se_similarity x)) xs)
          = filter (\<lambda>x. reverse_key (se_similarity x) = reverse_key s) xs"
    by (rule sort_key_stable)
  with assms show ?thesis by (simp add: sort_without_nan reverse_key_inj)
qed

lemma mset_sort_by_similarity:
  "\<forall>x\<in>set xs. se_similarity x \<noteq> NaN \<Longrightarrow> mset (sort_by_similarity_reverse fl xs) = mset xs"
  by (simp add: sort_without_nan)

lemma search_unfold:
  assumes "client (length (api_calls vs)) [query] = Inr (q # rest)" "0 \<le> n"
    and "similarities_loop fl q did (embeddings_data vs) = Inr cands"
  shows "search_similar_chunks fl client vs query did n =
           (Inr (map format_result (take (nat n) (sort_by_similarity_reverse fl cands))),
            vs\<lparr>api_calls := api_calls vs @ [[query]]\<rparr>)"
  using assms
  by (simp add: search_similar_chunks_def embeddings_create_def Let_def slice_to_nonneg)

text \<open>
  C1 (amended): when the embedding of the query succeeds, \<open>num_results\<close> is not negative,
  and the similarity of the query vector to each stored vector of the requested document
  is computed without an exception and is not nan (\<open>candidates\<close> are the entries that the
  loop collects), then: the candidates are exactly the stored records of the requested
  document, in stored order, each with the cosine similarity of its vector to the query
  vector, so that no record of another document is compared; and \<open>search_similar_chunks\<close>
  returns a list \<open>results\<close> for which there is a list \<open>omitted\<close> such that \<open>results\<close> followed
  by \<open>omitted\<close> is a rearrangement of all the candidates, is in descending order of
  similarity (hence no omitted record is more similar than a returned one), and has the
  entries of equal similarity in the order in which their records stand in the store (the
  sort is stable: chunk indices are not compared); \<open>results\<close> has
  \<open>min(num_results, number of stored records of the document)\<close> entries. The statement
  holds for every behaviour of the floating-point operations.
\<close>

theorem search_similar_chunks_ranked:
  assumes "client (length (api_calls vs)) [query] = Inr (query_embedding # rest)"
    and "0 \<le> num_results"
    and "similarities_loop fl query_embedding document_id (embeddings_data vs) = Inr candidates"
    and "\<forall>x\<in>set candidates. se_similarity x \<noteq> NaN"
  shows "\<exists>results omitted.
           search_similar_chunks fl client vs query document_id num_results =
             (Inr results, vs\<lparr>api_calls := api_calls vs @ [[query]]\<rparr>) \<and>
           map (\<lambda>x. (se_id x, se_data x)) candidates =
             filter (\<lambda>p. cd_document_id (snd p) = document_id) (embeddings_data vs) \<and>
           (\<forall>x\<in>set candidates.
              cosine_similarity fl query_embedding (cd_embedding (se_data x))
                = Inr (se_similarity x)) \<and>
           mset (results @ omitted) = mset (map format_result candidates) \<and>
           sorted_wrt (\<lambda>a b. float_le (sc_similarity b) (sc_similarity a)) (results @ omitted) \<and>
           (\<forall>s. filter (\<lambda>r. sc_similarity r = s) (results @ omitted)
                 = filter (\<lambda>r. sc_similarity r = s) (map format_result candidates)) \<and>
           length results =
             min (nat num_results)
               (length (filter (\<lambda>p. cd_document_id (snd p) = document_id) (embeddings_data vs)))"
proof -
  let ?sorted = "sort_by_similarity_reverse fl candidates"
  let ?results = "map format_result (take (nat num_results) ?sorted)"
  let ?omitted = "map format_result (drop (nat num_results) ?sorted)"
  have all: "?results @ ?omitted = map format_result ?sorted"
    by (simp flip: map_append)
  have run: "search_similar_chunks fl client vs query document_id num_results =
             (Inr ?results, vs\<lparr>api_calls := api_calls vs @ [[query]]\<rparr>)"
    using assms(1-3) by (rule search_unfold)
  have sim: "\<And>x. sc_similarity (format_result x) = se_similarity x"
    by (simp add: format_result_def)
  note loop = similarities_loop_Inr[OF assms(3)]
  from loop have recs: "map (\<lambda>x. (se_id x, se_data x)) candidates =
             filter (\<lambda>p. cd_document_id (snd p) = document_id) (embeddings_data vs)"
    by (rule conjunct1)
  from loop have cos: "\<forall>x\<in>set candidates.
              cosine_similarity fl query_embedding (cd_embedding (se_data x))
                = Inr (se_similarity x)"
    by (rule conjunct2)
  have "mset ?sorted = mset candidates"
    using assms(4) by (rule mset_sort_by_similarity)
  then have "mset (map format_result ?sorted) = mset (map format_result candidates)"
    by simp
  then have perm: "mset (?results @ ?omitted) = mset (map format_result candidates)"
    by (simp only: all)
  have "sorted_wrt (\<lambda>a b. float_le (se_similarity b) (se_similarity a)) ?sorted"
    using assms(4) by (rule sorted_desc_sort_by_similarity)
  then have "sorted_wrt (\<lambda>a b. float_le (sc_similarity b) (sc_similarity a))
               (map format_result ?sorted)"
    by (simp add: sorted_wrt_map sim)
  then have srt: "sorted_wrt (\<lambda>a b. float_le (sc_similarity b) (sc_similarity a))
                    (?results @ ?omitted)"
    by (simp only: all)
  have stab: "\<forall>s. filter (\<lambda>r. sc_similarity r = s) (?results @ ?omitted)
                 = filter (\<lambda>r. sc_similarity r = s) (map format_result candidates)"
  proof
    fix s
    have "filter (\<lambda>x. se_similarity x = s) ?sorted = filter (\<lambda>x. se_similarity x = s) candidates"
      using assms(4) by (rule stable_sort_by_similarity)
    then have "filter (\<lambda>r. sc_similarity r = s) (map format_result ?sorted)
                 = filter (\<lambda>r. sc_similarity r = s) (map format_result candidates)"
      by (simp add: filter_map comp_def sim)
    then show "filter (\<lambda>r. sc_similarity r = s) (?results @ ?omitted)
                 = filter (\<lambda>r. sc_similarity r = s) (map format_result candidates)"
      by (simp only: all)
  qed
  have "length ?sorted = length candidates"
    using assms(4) by (simp add: sort_without_nan)
  moreover have "length candidates =
      length (filter (\<lambda>p. cd_document_id (snd p) = document_id) (embeddings_data vs))"
    using recs by (metis length_map)
  ultimately have len: "length ?results =
             min (nat num_results)
               (length (filter (\<lambda>p. cd_document_id (snd p) = document_id) (embeddings_data vs)))"
    by (simp add: min.commute)
  from run recs cos perm srt stab len show ?thesis by blast
qed

lemma unit_client_query: "unit_client n [q] = Inr [[Finite 1]]"
  by (simp add: unit_client_def)

lemma cosine_unit: "cosine_similarity exact_floats [Finite 1] [Finite 1] = Inr (Finite 1)"
  by (simp add: cosine_similarity_def py_sum_def exact_floats_def exact2_def zero_pyfloat_def)

lemma cosine_axis_same:
  "cosine_similarity exact_floats [Finite 1, Finite 0] [Finite 1, Finite 0] = Inr (Finite 1)"
  by (simp add: cosine_similarity_def py_sum_def exact_floats_def exact2_def zero_pyfloat_def)

lemma cosine_axis_other:
  "cosine_similarity exact_floats [Finite 1, Finite 0] [Finite 0, Finite 1] = Inr (Finite 0)"
  by (simp add: cosine_similarity_def py_sum_def exact_floats_def exact2_def zero_pyfloat_def)

text \<open>
  The claim as stated fails on the tie-break: after \<open>add_chunks\<close> stored chunk 1 of
  document 1 before chunk 0, a query that is equally similar to both returns chunk 1
  first. It also fails on the count for a negative \<open>num_results\<close>: the slice
  \<open>similarities[:-1]\<close> of the two entries has one.
\<close>

theorem search_tie_order_counterexample:
  "snd (add_chunks unit_client empty_store tied_chunks) =
     \<lparr>embeddings_data = [(''doc_1_chunk_1'', example_record 1 1), (''doc_1_chunk_0'', example_record 1 0)],
      api_calls = [[''text'', ''text'']]\<rparr> \<and>
   fst (search_similar_chunks exact_floats unit_client
          (snd (add_chunks unit_client empty_store tied_chunks)) ''q'' 1 2) =
     Inr [\<lparr>sc_id = ''doc_1_chunk_1'', sc_text = ''text'', sc_similarity = Finite 1, sc_chunk_index = 1,
           sc_page_numbers = [1], sc_token_count = 1\<rparr>,
          \<lparr>sc_id = ''doc_1_chunk_0'', sc_text = ''text'', sc_similarity = Finite 1, sc_chunk_index = 0,
           sc_page_numbers = [1], sc_token_count = 1\<rparr>] \<and>
   fst (search_similar_chunks exact_floats unit_client
          (snd (add_chunks unit_client empty_store tied_chunks)) ''q'' 1 (- 1)) =
     Inr [\<lparr>sc_id = ''doc_1_chunk_1'', sc_text = ''text'', sc_similarity = Finite 1, sc_chunk_index = 1,
           sc_page_numbers = [1], sc_token_count = 1\<rparr>]"
proof -
  have a: "snd (add_chunks unit_client empty_store tied_chunks) =
     \<lparr>embeddings_data = [(''doc_1_chunk_1'', example_record 1 1), (''doc_1_chunk_0'', example_record 1 0)],
      api_calls = [[''text'', ''text'']]\<rparr>"
    by (simp add: add_chunks_def embeddings_create_def empty_store_def unit_client_def Let_def
      tied_chunks_def example_chunk_def chunk_id_of_def example_record_def)
  have b: "fst (search_similar_chunks exact_floats unit_client
     \<lparr>embeddings_data = [(''doc_1_chunk_1'', example_record 1 1), (''doc_1_chunk_0'', example_record 1 0)],
      api_calls = [[''text'', ''text'']]\<rparr> ''q'' 1 2) =
     Inr [\<lparr>sc_id = ''doc_1_chunk_1'', sc_text = ''text'', sc_similarity = Finite 1, sc_chunk_index = 1,
           sc_page_numbers = [1], sc_token_count = 1\<rparr>,
          \<lparr>sc_id = ''doc_1_chunk_0'', sc_text = ''text'', sc_similarity = Finite 1, sc_chunk_index = 0,
           sc_page_numbers = [1], sc_token_count = 1\<rparr>]"
    by (simp add: search_similar_chunks_def embeddings_create_def unit_client_query Let_def
        example_record_def cosine_unit sort_by_similarity_reverse_def reverse_key_def
        slice_to_def format_result_def)
  have c: "fst (search_similar_chunks exact_floats unit_client
     \<lparr>embeddings_data = [(''doc_1_chunk_1'', example_record 1 1), (''doc_1_chunk_0'', example_record 1 0)],
      api_calls = [[''text'', ''text'']]\<rparr> ''q'' 1 (- 1)) =
     Inr [\<lparr>sc_id = ''doc_1_chunk_1'', sc_text = ''text'', sc_similarity = Finite 1, sc_chunk_index = 1,
           sc_page_numbers = [1], sc_token_count = 1\<rparr>]"
    by (simp add: search_similar_chunks_def embeddings_create_def unit_client_query Let_def
        example_record_def cosine_unit sort_by_similarity_reverse_def reverse_key_def
        slice_to_def format_result_def)
  from a b c show ?thesis by simp
qed

lemma ranked_candidates:
  "similarities_loop exact_floats [Finite 1, Finite 0] 1 (embeddings_data ranked_store) =
     Inr [\<lparr>se_id = ''doc_1_chunk_0'', se_similarity = Finite 0,
            se_data = axis_record 1 0 [Finite 0, Finite 1]\<rparr>,
          \<lparr>se_id = ''doc_1_chunk_1'', se_similarity = Finite 1,
            se_data = axis_record 1 1 [Finite 1, Finite 0]\<rparr>]"
  by (simp add: ranked_store_def axis_record_def cosine_axis_same cosine_axis_other)

lemma ranked_search:
  "search_similar_chunks exact_floats axis_client ranked_store ''q'' 1 1 =
     (Inr [\<lparr>sc_id = ''doc_1_chunk_1'', sc_text = ''text'', sc_similarity = Finite 1,
            sc_chunk_index = 1, sc_page_numbers = [1], sc_token_count = 1\<rparr>],
      ranked_store\<lparr>api_calls := [[''q'']]\<rparr>)"
  by (simp add: search_similar_chunks_def embeddings_create_def axis_client_def Let_def
      ranked_store_def axis_record_def cosine_axis_same cosine_axis_other
      sort_by_similarity_reverse_def reverse_key_def slice_to_def format_result_def)

theorem search_similar_chunks_ranked_witness:
  "axis_client (length (api_calls ranked_store)) [''q''] = Inr [[Finite 1, Finite 0]] \<and>
   (0::int) \<le> 1 \<and>
   similarities_loop (exact_floats :: similarity_entry float_ops) [Finite 1, Finite 0] 1
       (embeddings_data ranked_store) =
     Inr [\<lparr>se_id = ''doc_1_chunk_0'', se_similarity = Finite 0,
            se_data = axis_record 1 0 [Finite 0, Finite 1]\<rparr>,
          \<lparr>se_id = ''doc_1_chunk_1'', se_similarity = Finite 1,
            se_data = axis_record 1 1 [Finite 1, Finite 0]\<rparr>] \<and>
   (\<exists>results omitted.
      search_similar_chunks exact_floats axis_client ranked_store ''q'' 1 1 =
        (Inr results, ranked_store\<lparr>api_calls := [[''q'']]\<rparr>) \<and>
      map sc_id results = [''doc_1_chunk_1''] \<and>
      map sc_id omitted = [''doc_1_chunk_0''] \<and>
      sorted_wrt (\<lambda>a b. float_le (sc_similarity b) (sc_similarity a)) (results @ omitted) \<and>
      length results = 1)"
proof -
  let ?cands = "[\<lparr>se_id = ''doc_1_chunk_0'', se_similarity = Finite 0,
                  se_data = axis_record 1 0 [Finite 0, Finite 1]\<rparr>,
                 \<lparr>se_id = ''doc_1_chunk_1'', se_similarity = Finite 1,
                  se_data = axis_record 1 1 [Finite 1, Finite 0]\<rparr>]"
  have h1: "axis_client (length (api_calls ranked_store)) [''q''] = Inr [[Finite 1, Finite 0]]"
    by (simp add: axis_client_def)
  have h2: "(0::int) \<le> 1" by simp
  note h3 = ranked_candidates
  have h4: "\<forall>x\<in>set ?cands. se_similarity x \<noteq> NaN" by simp
  from search_similar_chunks_ranked
         [of axis_client ranked_store "''q''" "[Finite 1, Finite 0]" "[]" 1 exact_floats 1 ?cands]
       h1 h2 h3 h4
  obtain results omitted where
    r: "search_similar_chunks exact_floats axis_client ranked_store ''q'' 1 1 =
          (Inr results, ranked_store\<lparr>api_calls := api_calls ranked_store @ [[''q'']]\<rparr>)"
       "mset (results @ omitted) = mset (map format_result ?cands)"
       "sorted_wrt (\<lambda>a b. float_le (sc_similarity b) (sc_similarity a)) (results @ omitted)"
       "length results =
          min (nat 1) (length (filter (\<lambda>p. cd_document_id (snd p) = 1)
                                 (embeddings_data ranked_store)))"
    by blast
  from r(1) have res: "results =
      [\<lparr>sc_id = ''doc_1_chunk_1'', sc_text = ''text'', sc_similarity = Finite 1,
        sc_chunk_index = 1, sc_page_numbers = [1], sc_token_count = 1\<rparr>]"
    by (simp add: ranked_search)
  from r(2) res have "mset omitted = {#format_result \<lparr>se_id = ''doc_1_chunk_0'', se_similarity = Finite 0,
                  se_data = axis_record 1 0 [Finite 0, Finite 1]\<rparr>#}"
    by (simp add: format_result_def axis_record_def)
  then have om: "map sc_id omitted = [''doc_1_chunk_0'']"
    by (simp add: format_result_def)
  from r(1) have run: "search_similar_chunks exact_floats axis_client ranked_store ''q'' 1 1 =
        (Inr results, ranked_store\<lparr>api_calls := [[''q'']]\<rparr>)"
    by (simp add: ranked_store_def)
  from res have ids: "map sc_id results = [''doc_1_chunk_1'']" and len: "length results = 1"
    by simp_all
  from run ids om r(3) len have "\<exists>results omitted.
      search_similar_chunks exact_floats axis_client ranked_store ''q'' 1 1 =
        (Inr results, ranked_store\<lparr>api_calls := [[''q'']]\<rparr>) \<and>
      map sc_id results = [''doc_1_chunk_1''] \<and>
      map sc_id omitted = [''doc_1_chunk_0''] \<and>
      sorted_wrt (\<lambda>a b. float_le (sc_similarity b) (sc_similarity a)) (results @ omitted) \<and>
      length results = 1"
    by - (rule exI[of _ results], rule exI[of _ omitted], (intro conjI; assumption))
  with h1 h2 h3 show ?thesis by (intro conjI)
qed


lemma add_chunks_loop_keys_grow:
  "add_chunks_loop data i cs ids d = (Inr ids', d') \<Longrightarrow>
   set (map (\<lambda>c. chunk_id_of (ch_document_id c) (ch_chunk_index c)) cs) \<union> set (keys d) \<subseteq> set (keys d')"
proof (induction cs arbitrary: i ids d)
  case Nil
  then show ?case by simp
next
  case (Cons c cs)
  let ?k = "chunk_id_of (ch_document_id c) (ch_chunk_index c)"
  let ?cd = "\<lparr>cd_embedding = data ! i, cd_text = ch_text c,
                    cd_document_id = ch_document_id c, cd_chunk_index = ch_chunk_index c,
                    cd_page_numbers = ch_page_numbers c, cd_token_count = ch_token_count c\<rparr>"
  show ?case
  proof (cases "i < length data")
    case True
    with Cons.prems
    have "add_chunks_loop data (Suc i) cs (ids @ [?k]) (dict_set ?k ?cd d) = (Inr ids', d')"
      by (simp add: Let_def)
    then have ih: "set (map (\<lambda>c. chunk_id_of (ch_document_id c) (ch_chunk_index c)) cs)
                 \<union> set (keys (dict_set ?k ?cd d)) \<subseteq> set (keys d')"
      by (rule Cons.IH)
    have "set (keys (dict_set ?k ?cd d)) = insert ?k (set (keys d))"
      by (auto simp: keys_dict_set)
    with ih show ?thesis by auto
  next
    case False
    with Cons.prems show ?thesis by (simp add: Let_def)
  qed
qed

lemma add_chunks_loop_keys_same:
  "add_chunks_loop data i cs ids d = (r, d') \<Longrightarrow>
   set (map (\<lambda>c. chunk_id_of (ch_document_id c) (ch_chunk_index c)) cs) \<subseteq> set (keys d) \<Longrightarrow>
   keys d' = keys d"
proof (induction cs arbitrary: i ids d)
  case Nil
  then show ?case by simp
next
  case (Cons c cs)
  let ?k = "chunk_id_of (ch_document_id c) (ch_chunk_index c)"
  let ?cd = "\<lparr>cd_embedding = data ! i, cd_text = ch_text c,
                    cd_document_id = ch_document_id c, cd_chunk_index = ch_chunk_index c,
                    cd_page_numbers = ch_page_numbers c, cd_token_count = ch_token_count c\<rparr>"
  show ?case
  proof (cases "i < length data")
    case True
    with Cons.prems(1)
    have l: "add_chunks_loop data (Suc i) cs (ids @ [?k]) (dict_set ?k ?cd d) = (r, d')"
      by (simp add: Let_def)
    from Cons.prems(2) have k: "keys (dict_set ?k ?cd d) = keys d"
      by (simp add: keys_dict_set)
    with Cons.prems(2)
    have "set (map (\<lambda>c. chunk_id_of (ch_document_id c) (ch_chunk_index c)) cs)
            \<subseteq> set (keys (dict_set ?k ?cd d))" by simp
    with l have "keys d' = keys (dict_set ?k ?cd d)" by (rule Cons.IH)
    with k show ?thesis by simp
  next
    case False
    with Cons.prems(1) show ?thesis by (simp add: Let_def)
  qed
qed

lemma add_chunks_keys_grow:
  assumes "add_chunks client vs cs = (Inr ids, vs')"
  shows "set (map (\<lambda>c. chunk_id_of (ch_document_id c) (ch_chunk_index c)) cs)
           \<subseteq> set (keys (embeddings_data vs'))"
proof (cases "cs = []")
  case True
  then show ?thesis by simp
next
  case False
  show ?thesis
  proof (cases "client (length (api_calls vs)) (map ch_text cs)")
    case (Inl e)
    with assms False show ?thesis by (simp add: add_chunks_unfold)
  next
    case (Inr data)
    obtain r' d' where l: "add_chunks_loop data 0 cs [] (embeddings_data vs) = (r', d')"
      by (cases "add_chunks_loop data 0 cs [] (embeddings_data vs)")
    with assms False Inr have e: "embeddings_data vs' = d'" "r' = Inr ids"
      by (auto simp: add_chunks_unfold)
    with l have "add_chunks_loop data 0 cs [] (embeddings_data vs) = (Inr ids, d')" by simp
    from add_chunks_loop_keys_grow[OF this] e(1) show ?thesis by simp
  qed
qed

lemma add_chunks_keys_same:
  assumes "add_chunks client vs cs = (r, vs')"
    and "set (map (\<lambda>c. chunk_id_of (ch_document_id c) (ch_chunk_index c)) cs)
           \<subseteq> set (keys (embeddings_data vs))"
  shows "keys (embeddings_data vs') = keys (embeddings_data vs)"
proof (cases "cs = []")
  case True
  with assms(1) show ?thesis by (simp add: add_chunks_def)
next
  case False
  show ?thesis
  proof (cases "client (length (api_calls vs)) (map ch_text cs)")
    case (Inl e)
    with assms(1) False have "embeddings_data vs' = embeddings_data vs"
      by (auto simp: add_chunks_unfold)
    then show ?thesis by simp
  next
    case (Inr data)
    obtain r' d' where l: "add_chunks_loop data 0 cs [] (embeddings_data vs) = (r', d')"
      by (cases "add_chunks_loop data 0 cs [] (embeddings_data vs)")
    with assms(1) False Inr have e: "embeddings_data vs' = d'"
      by (auto simp: add_chunks_unfold)
    from add_chunks_loop_keys_same[OF l assms(2)] e show ?thesis by simp
  qed
qed

lemma count_key:
  "distinct (map fst d) \<Longrightarrow> k \<in> fst ` set d \<Longrightarrow> length (filter (\<lambda>p. fst p = k) d) = 1"
proof (induction d)
  case Nil
  then show ?case by simp
next
  case (Cons p d)
  show ?case
  proof (cases "fst p = k")
    case True
    with Cons.prems(1) have "k \<notin> fst ` set d" by auto
    then have "\<forall>q\<in>set d. fst q \<noteq> k" by force
    then have "filter (\<lambda>p. fst p = k) d = []" by (simp add: filter_empty_conv)
    with True show ?thesis by simp
  next
    case False
    with Cons.prems have "distinct (map fst d)" "k \<in> fst ` set d" by auto
    then have "length (filter (\<lambda>p. fst p = k) d) = 1" by (rule Cons.IH)
    with False show ?thesis by simp
  qed
qed

lemma digit_char_inj: "digit_char n = digit_char m \<Longrightarrow> n mod 10 = m mod 10"
proof -
  assume h: "digit_char n = digit_char m"
  have d: "distinct ''0123456789''" by simp
  have l: "n mod 10 < length ''0123456789''" "m mod 10 < length ''0123456789''" by simp_all
  from h have "''0123456789'' ! (n mod 10) = ''0123456789'' ! (m mod 10)"
    by (simp only: digit_char_def)
  with nth_eq_iff_index_eq[OF d l] show ?thesis by blast
qed

lemma str_nat_small: "n < 10 \<Longrightarrow> str_nat n = [digit_char n]"
  by (subst str_nat.simps) simp

lemma str_nat_large: "\<not> n < 10 \<Longrightarrow> str_nat n = str_nat (n div 10) @ [digit_char n]"
  by (subst str_nat.simps) simp

lemma str_nat_nonempty: "str_nat n \<noteq> []"
  by (cases "n < 10") (simp_all add: str_nat_small str_nat_large)

lemma str_nat_inj: "str_nat n = str_nat m \<Longrightarrow> n = m"
proof (induction n arbitrary: m rule: str_nat.induct)
  case (1 n)
  show ?case
  proof (cases "n < 10")
    case True
    note n = str_nat_small[OF True]
    show ?thesis
    proof (cases "m < 10")
      case m: True
      from "1.prems" n str_nat_small[OF m] have "digit_char n = digit_char m" by simp
      then have "n mod 10 = m mod 10" by (rule digit_char_inj)
      with True m show ?thesis by simp
    next
      case False
      from "1.prems" n str_nat_large[OF False] str_nat_nonempty[of "m div 10"]
      show ?thesis by simp
    qed
  next
    case False
    note n = str_nat_large[OF False]
    show ?thesis
    proof (cases "m < 10")
      case True
      from "1.prems" n str_nat_small[OF True] str_nat_nonempty[of "n div 10"]
      show ?thesis by simp
    next
      case m: False
      from "1.prems" n str_nat_large[OF m]
      have e: "str_nat (n div 10) = str_nat (m div 10)" "digit_char n = digit_char m"
        by simp_all
      from e(1) have "n div 10 = m div 10" by (rule "1.IH"[OF False])
      moreover from e(2) have "n mod 10 = m mod 10" by (rule digit_char_inj)
      ultimately have "n div 10 * 10 + n mod 10 = m div 10 * 10 + m mod 10" by simp
      then show ?thesis by (simp only: div_mult_mod_eq)
    qed
  qed
qed

lemma digit_char_in: "digit_char n \<in> set ''0123456789''"
  unfolding digit_char_def by (rule nth_mem) simp

lemma set_str_nat: "set (str_nat n) \<subseteq> set ''0123456789''"
proof (induction n rule: str_nat.induct)
  case (1 n)
  show ?case
  proof (cases "n < 10")
    case True
    with digit_char_in[of n] show ?thesis by (simp add: str_nat_small)
  next
    case False
    from "1.IH"[OF False] digit_char_in[of n] show ?thesis
      by (simp add: str_nat_large[OF False])
  qed
qed

lemma str_nat_no_minus: "CHR ''-'' \<notin> set (str_nat n)"
proof
  assume "CHR ''-'' \<in> set (str_nat n)"
  with set_str_nat have "CHR ''-'' \<in> set ''0123456789''" by (rule subsetD)
  then show False by simp
qed

lemma str_nat_no_underscore: "CHR ''_'' \<notin> set (str_nat n)"
proof
  assume "CHR ''_'' \<in> set (str_nat n)"
  with set_str_nat have "CHR ''_'' \<in> set ''0123456789''" by (rule subsetD)
  then show False by simp
qed

lemma str_nat_not_minus: "str_nat n \<noteq> CHR ''-'' # s"
proof
  assume "str_nat n = CHR ''-'' # s"
  then have "CHR ''-'' \<in> set (str_nat n)" by simp
  with str_nat_no_minus show False by blast
qed

lemma str_int_inj: "str_int i = str_int j \<Longrightarrow> i = j"
proof -
  assume h: "str_int i = str_int j"
  show ?thesis
  proof (cases "i < 0")
    case True
    show ?thesis
    proof (cases "j < 0")
      case j: True
      with True h have "str_nat (nat (- i)) = str_nat (nat (- j))" by (simp add: str_int_def)
      then have "nat (- i) = nat (- j)" by (rule str_nat_inj)
      with True j show ?thesis by simp
    next
      case False
      with True h have "str_nat (nat j) = CHR ''-'' # str_nat (nat (- i))" by (simp add: str_int_def)
      with str_nat_not_minus show ?thesis by blast
    qed
  next
    case False
    show ?thesis
    proof (cases "j < 0")
      case True
      with False h have "str_nat (nat i) = CHR ''-'' # str_nat (nat (- j))" by (simp add: str_int_def)
      with str_nat_not_minus show ?thesis by blast
    next
      case j: False
      with False h have "str_nat (nat i) = str_nat (nat j)" by (simp add: str_int_def)
      then have "nat i = nat j" by (rule str_nat_inj)
      with False j show ?thesis by simp
    qed
  qed
qed

lemma underscore_notin_str_int: "CHR ''_'' \<notin> set (str_int i)"
  using str_nat_no_underscore by (simp add: str_int_def)

lemma take_until_underscore:
  "CHR ''_'' \<notin> set s \<Longrightarrow> takeWhile (\<lambda>c. c \<noteq> CHR ''_'') (s @ CHR ''_'' # t) = s"
  by (induction s) auto

lemma chunk_id_of_inj:
  "chunk_id_of d i = chunk_id_of d' i' \<Longrightarrow> d = d' \<and> i = i'"
proof -
  assume h: "chunk_id_of d i = chunk_id_of d' i'"
  then have e: "str_int d @ CHR ''_'' # (''chunk_'' @ str_int i)
              = str_int d' @ CHR ''_'' # (''chunk_'' @ str_int i')"
    by (simp add: chunk_id_of_def)
  have "takeWhile (\<lambda>c. c \<noteq> CHR ''_'') (str_int d @ CHR ''_'' # (''chunk_'' @ str_int i)) = str_int d"
    using underscore_notin_str_int by (rule take_until_underscore)
  moreover have "takeWhile (\<lambda>c. c \<noteq> CHR ''_'') (str_int d' @ CHR ''_'' # (''chunk_'' @ str_int i')) = str_int d'"
    using underscore_notin_str_int by (rule take_until_underscore)
  ultimately have dd: "str_int d = str_int d'" using e by simp
  with e have "str_int i = str_int i'" by simp
  with dd show ?thesis by (simp add: str_int_inj)
qed

lemma one_record_per_chunk:
  assumes wf: "well_formed_dict d" and kc: "key_consistent d"
    and present: "chunk_id_of did idx \<in> set (keys d)"
  shows "length (filter (\<lambda>p. cd_document_id (snd p) = did \<and> cd_chunk_index (snd p) = idx) d) = 1"
proof -
  have "filter (\<lambda>p. cd_document_id (snd p) = did \<and> cd_chunk_index (snd p) = idx) d
          = filter (\<lambda>p. fst p = chunk_id_of did idx) d"
  proof (rule filter_cong[OF refl])
    fix p assume p: "p \<in> set d"
    obtain k cd where pk: "p = (k, cd)" by (cases p)
    from kc p pk have k: "k = chunk_id_of (cd_document_id cd) (cd_chunk_index cd)"
      by (auto simp: key_consistent_def list_all_iff)
    show "(cd_document_id (snd p) = did \<and> cd_chunk_index (snd p) = idx) = (fst p = chunk_id_of did idx)"
    proof
      assume "cd_document_id (snd p) = did \<and> cd_chunk_index (snd p) = idx"
      with pk k show "fst p = chunk_id_of did idx" by simp
    next
      assume "fst p = chunk_id_of did idx"
      with pk k have "chunk_id_of (cd_document_id cd) (cd_chunk_index cd) = chunk_id_of did idx"
        by simp
      then have "cd_document_id cd = did \<and> cd_chunk_index cd = idx" by (rule chunk_id_of_inj)
      with pk show "cd_document_id (snd p) = did \<and> cd_chunk_index (snd p) = idx" by simp
    qed
  qed
  moreover from wf have "distinct (map fst d)" by (simp add: well_formed_dict_def keys_def)
  moreover from present have "chunk_id_of did idx \<in> fst ` set d" by (simp add: keys_def)
  ultimately show ?thesis by (simp add: count_key)
qed

lemma dict_get_dict_set:
  "dict_get (dict_set k v d) k' = (if k' = k then Some v else dict_get d k')"
  by (induction d) auto

lemma add_chunks_loop_other:
  "add_chunks_loop data i cs ids d = (r, d') \<Longrightarrow>
   k \<notin> set (map (\<lambda>c. chunk_id_of (ch_document_id c) (ch_chunk_index c)) cs) \<Longrightarrow>
   dict_get d' k = dict_get d k"
proof (induction cs arbitrary: i ids d)
  case Nil
  then show ?case by simp
next
  case (Cons c cs)
  let ?k = "chunk_id_of (ch_document_id c) (ch_chunk_index c)"
  let ?v = "\<lparr>cd_embedding = data ! i, cd_text = ch_text c,
             cd_document_id = ch_document_id c, cd_chunk_index = ch_chunk_index c,
             cd_page_numbers = ch_page_numbers c, cd_token_count = ch_token_count c\<rparr>"
  from Cons.prems(2) have ne: "k \<noteq> ?k" and rest: "k \<notin> set (map (\<lambda>c. chunk_id_of (ch_document_id c) (ch_chunk_index c)) cs)"
    by auto
  show ?case
  proof (cases "i < length data")
    case False
    with Cons.prems(1) show ?thesis by (simp add: Let_def)
  next
    case True
    with Cons.prems(1) have "add_chunks_loop data (Suc i) cs (ids @ [?k]) (dict_set ?k ?v d) = (r, d')"
      by (simp add: Let_def)
    from Cons.IH[OF this rest] have "dict_get d' k = dict_get (dict_set ?k ?v d) k" .
    with ne show ?thesis by (simp add: dict_get_dict_set)
  qed
qed

lemma add_chunks_loop_overwrites:
  "add_chunks_loop data i cs ids d = (Inr ids', d') \<Longrightarrow> j < length cs \<Longrightarrow>
   (\<forall>l<length cs. j < l \<longrightarrow>
      chunk_id_of (ch_document_id (cs ! l)) (ch_chunk_index (cs ! l))
        \<noteq> chunk_id_of (ch_document_id (cs ! j)) (ch_chunk_index (cs ! j))) \<Longrightarrow>
   dict_get d' (chunk_id_of (ch_document_id (cs ! j)) (ch_chunk_index (cs ! j))) =
     Some \<lparr>cd_embedding = data ! (i + j), cd_text = ch_text (cs ! j),
           cd_document_id = ch_document_id (cs ! j), cd_chunk_index = ch_chunk_index (cs ! j),
           cd_page_numbers = ch_page_numbers (cs ! j), cd_token_count = ch_token_count (cs ! j)\<rparr>"
proof (induction cs arbitrary: i ids d j)
  case Nil
  then show ?case by simp
next
  case (Cons c cs)
  let ?key = "\<lambda>c. chunk_id_of (ch_document_id c) (ch_chunk_index c)"
  let ?v = "\<lparr>cd_embedding = data ! i, cd_text = ch_text c,
             cd_document_id = ch_document_id c, cd_chunk_index = ch_chunk_index c,
             cd_page_numbers = ch_page_numbers c, cd_token_count = ch_token_count c\<rparr>"
  from Cons.prems(1) have inrange: "i < length data"
    by (cases "i < length data") (simp_all add: Let_def)
  with Cons.prems(1)
  have run: "add_chunks_loop data (Suc i) cs (ids @ [?key c]) (dict_set (?key c) ?v d) = (Inr ids', d')"
    by (simp add: Let_def)
  show ?case
  proof (cases j)
    case 0
    have "?key c \<notin> set (map ?key cs)"
    proof
      assume "?key c \<in> set (map ?key cs)"
      then obtain l where l: "l < length cs" "?key (cs ! l) = ?key c"
        by (auto simp: in_set_conv_nth)
      from l(1) have "Suc l < length (c # cs)" by simp
      moreover from 0 have "j < Suc l" by simp
      ultimately have "?key ((c # cs) ! Suc l) \<noteq> ?key ((c # cs) ! j)"
        using Cons.prems(3) by blast
      with l(2) 0 show False by simp
    qed
    with run have "dict_get d' (?key c) = dict_get (dict_set (?key c) ?v d) (?key c)"
      by (rule add_chunks_loop_other)
    with 0 show ?thesis by (simp add: dict_get_dict_set)
  next
    case (Suc j')
    with Cons.prems(2) have j': "j' < length cs" by simp
    have later: "\<forall>l<length cs. j' < l \<longrightarrow> ?key (cs ! l) \<noteq> ?key (cs ! j')"
    proof (intro allI impI)
      fix l assume "l < length cs" "j' < l"
      then have "Suc l < length (c # cs)" "j < Suc l" using Suc by simp_all
      with Cons.prems(3) have "?key ((c # cs) ! Suc l) \<noteq> ?key ((c # cs) ! j)" by blast
      with Suc show "?key (cs ! l) \<noteq> ?key (cs ! j')" by simp
    qed
    from Cons.IH[OF run j' later] Suc show ?thesis by simp
  qed
qed

text \<open>
  C6: from a store with distinct, consistent keys, when \<open>add_chunks\<close> has stored a batch
  and is called again with a batch of the same document ids and chunk indices, the second
  call (whether its embedding request succeeds or not) leaves the keys as they are, so
  \<open>total_chunks\<close> of \<open>get_collection_stats\<close> is unchanged, and for each chunk of the batch
  exactly one stored record carries its document id and chunk index; a key that is not
  one of the batch keeps its record; and when the second call returns normally it has
  overwritten: under the key of each chunk of the second batch stands the record built
  from that chunk (its text, page numbers and token count) and from the vector that the
  second embedding request returned for it (for a (document id, chunk index) that occurs
  more than once in the batch, from its last occurrence).
\<close>

theorem add_chunks_twice:
  assumes wf: "well_formed_dict (embeddings_data vs)"
    and kc: "key_consistent (embeddings_data vs)"
    and first: "add_chunks client vs batch = (Inr ids, vs1)"
    and same: "map (\<lambda>c. (ch_document_id c, ch_chunk_index c)) batch'
                 = map (\<lambda>c. (ch_document_id c, ch_chunk_index c)) batch"
    and second: "add_chunks client vs1 batch' = (r, vs2)"
  shows "total_chunks (get_collection_stats vs2) = total_chunks (get_collection_stats vs1) \<and>
         keys (embeddings_data vs2) = keys (embeddings_data vs1) \<and>
         (\<forall>c\<in>set batch.
            length (filter (\<lambda>p. cd_document_id (snd p) = ch_document_id c \<and>
                                cd_chunk_index (snd p) = ch_chunk_index c)
                      (embeddings_data vs2)) = 1) \<and>
         (\<forall>k. k \<notin> set (map (\<lambda>c. chunk_id_of (ch_document_id c) (ch_chunk_index c)) batch') \<longrightarrow>
              dict_get (embeddings_data vs2) k = dict_get (embeddings_data vs1) k) \<and>
         (\<forall>ids' data. r = Inr ids' \<and>
              client (length (api_calls vs1)) (map ch_text batch') = Inr data \<longrightarrow>
            (\<forall>i<length batch'.
               (\<forall>j<length batch'. i < j \<longrightarrow>
                  (ch_document_id (batch' ! j), ch_chunk_index (batch' ! j))
                    \<noteq> (ch_document_id (batch' ! i), ch_chunk_index (batch' ! i))) \<longrightarrow>
               dict_get (embeddings_data vs2)
                   (chunk_id_of (ch_document_id (batch' ! i)) (ch_chunk_index (batch' ! i))) =
                 Some \<lparr>cd_embedding = data ! i, cd_text = ch_text (batch' ! i),
                       cd_document_id = ch_document_id (batch' ! i),
                       cd_chunk_index = ch_chunk_index (batch' ! i),
                       cd_page_numbers = ch_page_numbers (batch' ! i),
                       cd_token_count = ch_token_count (batch' ! i)\<rparr>))"
proof -
  let ?key = "\<lambda>c. chunk_id_of (ch_document_id c) (ch_chunk_index c)"
  have "map ?key batch' = map (\<lambda>p. chunk_id_of (fst p) (snd p)) (map (\<lambda>c. (ch_document_id c, ch_chunk_index c)) batch')"
    by simp
  also have "\<dots> = map (\<lambda>p. chunk_id_of (fst p) (snd p)) (map (\<lambda>c. (ch_document_id c, ch_chunk_index c)) batch)"
    by (simp only: same)
  also have "\<dots> = map ?key batch" by simp
  finally have samekeys: "map ?key batch' = map ?key batch" .
  from first have grown: "set (map ?key batch) \<subseteq> set (keys (embeddings_data vs1))"
    by (rule add_chunks_keys_grow)
  with samekeys have "set (map ?key batch') \<subseteq> set (keys (embeddings_data vs1))" by simp
  with second have ks: "keys (embeddings_data vs2) = keys (embeddings_data vs1)"
    by (rule add_chunks_keys_same)
  then have "length (keys (embeddings_data vs2)) = length (keys (embeddings_data vs1))" by simp
  then have total: "total_chunks (get_collection_stats vs2) = total_chunks (get_collection_stats vs1)"
    by (simp add: get_collection_stats_def keys_def)
  from add_chunks_invariants[OF first] wf kc
  have i1: "well_formed_dict (embeddings_data vs1)" "key_consistent (embeddings_data vs1)" by simp_all
  from add_chunks_invariants[OF second] i1
  have i2: "well_formed_dict (embeddings_data vs2)" "key_consistent (embeddings_data vs2)" by simp_all
  have one: "\<forall>c\<in>set batch.
            length (filter (\<lambda>p. cd_document_id (snd p) = ch_document_id c \<and>
                                cd_chunk_index (snd p) = ch_chunk_index c)
                      (embeddings_data vs2)) = 1"
  proof
    fix c assume "c \<in> set batch"
    then have "?key c \<in> set (map ?key batch)" by simp
    with grown ks have "?key c \<in> set (keys (embeddings_data vs2))" by auto
    with i2 show "length (filter (\<lambda>p. cd_document_id (snd p) = ch_document_id c \<and>
                                cd_chunk_index (snd p) = ch_chunk_index c)
                      (embeddings_data vs2)) = 1"
      by (rule one_record_per_chunk)
  qed
  have other: "\<forall>k. k \<notin> set (map ?key batch') \<longrightarrow>
              dict_get (embeddings_data vs2) k = dict_get (embeddings_data vs1) k"
  proof (intro allI impI)
    fix k assume k: "k \<notin> set (map ?key batch')"
    show "dict_get (embeddings_data vs2) k = dict_get (embeddings_data vs1) k"
    proof (cases "batch' = []")
      case True
      with second show ?thesis by (simp add: add_chunks_def)
    next
      case False
      show ?thesis
      proof (cases "client (length (api_calls vs1)) (map ch_text batch')")
        case (Inl e)
        with second False show ?thesis by (auto simp: add_chunks_unfold)
      next
        case (Inr data)
        obtain r' d' where l: "add_chunks_loop data 0 batch' [] (embeddings_data vs1) = (r', d')"
          by (cases "add_chunks_loop data 0 batch' [] (embeddings_data vs1)")
        from second False Inr l have "embeddings_data vs2 = d'"
          by (auto simp: add_chunks_unfold)
        with add_chunks_loop_other[OF l k] show ?thesis by simp
      qed
    qed
  qed
  have over: "\<forall>ids' data. r = Inr ids' \<and>
              client (length (api_calls vs1)) (map ch_text batch') = Inr data \<longrightarrow>
            (\<forall>i<length batch'.
               (\<forall>j<length batch'. i < j \<longrightarrow>
                  (ch_document_id (batch' ! j), ch_chunk_index (batch' ! j))
                    \<noteq> (ch_document_id (batch' ! i), ch_chunk_index (batch' ! i))) \<longrightarrow>
               dict_get (embeddings_data vs2) (?key (batch' ! i)) =
                 Some \<lparr>cd_embedding = data ! i, cd_text = ch_text (batch' ! i),
                       cd_document_id = ch_document_id (batch' ! i),
                       cd_chunk_index = ch_chunk_index (batch' ! i),
                       cd_page_numbers = ch_page_numbers (batch' ! i),
                       cd_token_count = ch_token_count (batch' ! i)\<rparr>)"
  proof (intro allI impI)
    fix ids' data i
    assume ok: "r = Inr ids' \<and> client (length (api_calls vs1)) (map ch_text batch') = Inr data"
      and i: "i < length batch'"
      and last: "\<forall>j<length batch'. i < j \<longrightarrow>
                  (ch_document_id (batch' ! j), ch_chunk_index (batch' ! j))
                    \<noteq> (ch_document_id (batch' ! i), ch_chunk_index (batch' ! i))"
    from i have ne: "batch' \<noteq> []" by auto
    obtain r' d' where l: "add_chunks_loop data 0 batch' [] (embeddings_data vs1) = (r', d')"
      by (cases "add_chunks_loop data 0 batch' [] (embeddings_data vs1)")
    from second ne ok l have rd: "r' = Inr ids'" "embeddings_data vs2 = d'"
      by (auto simp: add_chunks_unfold)
    have lastkey: "\<forall>j<length batch'. i < j \<longrightarrow> ?key (batch' ! j) \<noteq> ?key (batch' ! i)"
    proof (intro allI impI)
      fix j assume j: "j < length batch'" "i < j"
      show "?key (batch' ! j) \<noteq> ?key (batch' ! i)"
      proof
        assume "?key (batch' ! j) = ?key (batch' ! i)"
        then have "ch_document_id (batch' ! j) = ch_document_id (batch' ! i) \<and>
                   ch_chunk_index (batch' ! j) = ch_chunk_index (batch' ! i)"
          by (rule chunk_id_of_inj)
        with last j show False by blast
      qed
    qed
    from l rd(1) have "add_chunks_loop data 0 batch' [] (embeddings_data vs1) = (Inr ids', d')"
      by simp
    from add_chunks_loop_overwrites[OF this i lastkey] rd(2)
    show "dict_get (embeddings_data vs2) (?key (batch' ! i)) =
                 Some \<lparr>cd_embedding = data ! i, cd_text = ch_text (batch' ! i),
                       cd_document_id = ch_document_id (batch' ! i),
                       cd_chunk_index = ch_chunk_index (batch' ! i),
                       cd_page_numbers = ch_page_numbers (batch' ! i),
                       cd_token_count = ch_token_count (batch' ! i)\<rparr>"
      by simp
  qed
  from total ks one other over show ?thesis by (intro conjI)
qed

lemma numbered_add:
  "add_chunks numbering_client empty_store [example_chunk 1 0, example_chunk 2 0, example_chunk 1 1]
   = (Inr [''doc_1_chunk_0'', ''doc_2_chunk_0'', ''doc_1_chunk_1''],
      \<lparr>embeddings_data =
         [(''doc_1_chunk_0'', axis_record 1 0 [Finite 0]),
          (''doc_2_chunk_0'', axis_record 2 0 [Finite 0]),
          (''doc_1_chunk_1'', axis_record 1 1 [Finite 0])],
       api_calls = [[''text'', ''text'', ''text'']]\<rparr>)"
  by (simp add: add_chunks_def embeddings_create_def empty_store_def numbering_client_def Let_def
      example_chunk_def chunk_id_of_def axis_record_def)

lemma numbered_add_again:
  "add_chunks numbering_client
     \<lparr>embeddings_data =
         [(''doc_1_chunk_0'', axis_record 1 0 [Finite 0]),
          (''doc_2_chunk_0'', axis_record 2 0 [Finite 0]),
          (''doc_1_chunk_1'', axis_record 1 1 [Finite 0])],
       api_calls = [[''text'', ''text'', ''text'']]\<rparr>
     [revised_chunk 1 0, revised_chunk 2 0, revised_chunk 1 1]
   = (Inr [''doc_1_chunk_0'', ''doc_2_chunk_0'', ''doc_1_chunk_1''],
      \<lparr>embeddings_data =
         [(''doc_1_chunk_0'', revised_record 1 0),
          (''doc_2_chunk_0'', revised_record 2 0),
          (''doc_1_chunk_1'', revised_record 1 1)],
       api_calls = [[''text'', ''text'', ''text''], [''new text'', ''new text'', ''new text'']]\<rparr>)"
  by (simp add: add_chunks_def embeddings_create_def numbering_client_def Let_def
      revised_chunk_def chunk_id_of_def axis_record_def revised_record_def)

theorem add_chunks_twice_witness:
  "well_formed_dict (embeddings_data empty_store) \<and> key_consistent (embeddings_data empty_store) \<and>
   add_chunks numbering_client empty_store [example_chunk 1 0, example_chunk 2 0, example_chunk 1 1]
     = (Inr [''doc_1_chunk_0'', ''doc_2_chunk_0'', ''doc_1_chunk_1''],
        \<lparr>embeddings_data =
           [(''doc_1_chunk_0'', axis_record 1 0 [Finite 0]),
            (''doc_2_chunk_0'', axis_record 2 0 [Finite 0]),
            (''doc_1_chunk_1'', axis_record 1 1 [Finite 0])],
         api_calls = [[''text'', ''text'', ''text'']]\<rparr>) \<and>
   map (\<lambda>c. (ch_document_id c, ch_chunk_index c)) [revised_chunk 1 0, revised_chunk 2 0, revised_chunk 1 1]
     = map (\<lambda>c. (ch_document_id c, ch_chunk_index c)) [example_chunk 1 0, example_chunk 2 0, example_chunk 1 1] \<and>
   total_chunks (get_collection_stats
     (snd (add_chunks numbering_client
        (snd (add_chunks numbering_client empty_store
                [example_chunk 1 0, example_chunk 2 0, example_chunk 1 1]))
        [revised_chunk 1 0, revised_chunk 2 0, revised_chunk 1 1]))) = 3 \<and>
   length (filter (\<lambda>p. cd_document_id (snd p) = 1 \<and> cd_chunk_index (snd p) = 1)
      (embeddings_data (snd (add_chunks numbering_client
        (snd (add_chunks numbering_client empty_store
                [example_chunk 1 0, example_chunk 2 0, example_chunk 1 1]))
        [revised_chunk 1 0, revised_chunk 2 0, revised_chunk 1 1])))) = 1 \<and>
   dict_get
      (embeddings_data (snd (add_chunks numbering_client
        (snd (add_chunks numbering_client empty_store
                [example_chunk 1 0, example_chunk 2 0, example_chunk 1 1]))
        [revised_chunk 1 0, revised_chunk 2 0, revised_chunk 1 1])))
      ''doc_1_chunk_1''
     = Some \<lparr>cd_embedding = [Finite 1], cd_text = ''new text'', cd_document_id = 1,
             cd_chunk_index = 1, cd_page_numbers = [2], cd_token_count = 2\<rparr>"
proof -
  let ?cs = "[example_chunk 1 0, example_chunk 2 0, example_chunk 1 1]"
  let ?cs' = "[revised_chunk 1 0, revised_chunk 2 0, revised_chunk 1 1]"
  let ?vs1 = "\<lparr>embeddings_data =
         [(''doc_1_chunk_0'', axis_record 1 0 [Finite 0]),
          (''doc_2_chunk_0'', axis_record 2 0 [Finite 0]),
          (''doc_1_chunk_1'', axis_record 1 1 [Finite 0])],
       api_calls = [[''text'', ''text'', ''text'']]\<rparr>"
  let ?vs2 = "\<lparr>embeddings_data =
         [(''doc_1_chunk_0'', revised_record 1 0),
          (''doc_2_chunk_0'', revised_record 2 0),
          (''doc_1_chunk_1'', revised_record 1 1)],
       api_calls = [[''text'', ''text'', ''text''], [''new text'', ''new text'', ''new text'']]\<rparr>"
  let ?ids = "[''doc_1_chunk_0'', ''doc_2_chunk_0'', ''doc_1_chunk_1'']"
  have wf: "well_formed_dict (embeddings_data empty_store)"
    by (simp add: empty_store_def well_formed_dict_def keys_def)
  have kc: "key_consistent (embeddings_data empty_store)"
    by (simp add: empty_store_def key_consistent_def)
  have same: "map (\<lambda>c. (ch_document_id c, ch_chunk_index c)) ?cs'
                 = map (\<lambda>c. (ch_document_id c, ch_chunk_index c)) ?cs"
    by (simp add: revised_chunk_def example_chunk_def)
  note inst = add_chunks_twice[OF wf kc numbered_add same numbered_add_again]
  from inst have t: "total_chunks (get_collection_stats ?vs2) = total_chunks (get_collection_stats ?vs1)"
    by (rule conjunct1)
  note o = inst[THEN conjunct2, THEN conjunct2, THEN conjunct1]
  note ov = inst[THEN conjunct2, THEN conjunct2, THEN conjunct2, THEN conjunct2, rule_format]
  have resp: "numbering_client (length (api_calls ?vs1)) (map ch_text ?cs')
                = Inr [[Finite 1], [Finite 1], [Finite 1]]"
    by (simp add: numbering_client_def)
  have lastocc: "\<forall>j<length ?cs'. 2 < j \<longrightarrow>
                  (ch_document_id (?cs' ! j), ch_chunk_index (?cs' ! j))
                    \<noteq> (ch_document_id (?cs' ! 2), ch_chunk_index (?cs' ! 2))"
    by simp
  have two: "(2::nat) < length ?cs'" by simp
  from ov[OF conjI[OF refl resp] two lastocc[rule_format]]
  have "dict_get (embeddings_data ?vs2)
                   (chunk_id_of (ch_document_id (?cs' ! 2)) (ch_chunk_index (?cs' ! 2))) =
                 Some \<lparr>cd_embedding = [[Finite 1], [Finite 1], [Finite 1]] ! 2, cd_text = ch_text (?cs' ! 2),
                       cd_document_id = ch_document_id (?cs' ! 2),
                       cd_chunk_index = ch_chunk_index (?cs' ! 2),
                       cd_page_numbers = ch_page_numbers (?cs' ! 2),
                       cd_token_count = ch_token_count (?cs' ! 2)\<rparr>" .
  then have ov1: "dict_get (embeddings_data ?vs2) ''doc_1_chunk_1''
     = Some \<lparr>cd_embedding = [Finite 1], cd_text = ''new text'', cd_document_id = 1,
             cd_chunk_index = 1, cd_page_numbers = [2], cd_token_count = 2\<rparr>"
    by (simp add: revised_chunk_def chunk_id_of_def)
  from t have t3: "total_chunks (get_collection_stats ?vs2) = 3"
    by (simp add: get_collection_stats_def)
  from o have "length (filter (\<lambda>p. cd_document_id (snd p) = ch_document_id (example_chunk 1 1) \<and>
                                cd_chunk_index (snd p) = ch_chunk_index (example_chunk 1 1))
                      (embeddings_data ?vs2)) = 1" by simp
  then have o1: "length (filter (\<lambda>p. cd_document_id (snd p) = 1 \<and> cd_chunk_index (snd p) = 1)
      (embeddings_data ?vs2)) = 1"
    by (simp add: example_chunk_def)
  from wf kc numbered_add same t3 o1 ov1 show ?thesis
    by (simp only: numbered_add numbered_add_again snd_conv simp_thms)
qed

section \<open>Properties of the chunker\<close>

subsection \<open>The loop of \<open>chunk_text\<close>\<close>













subsection \<open>Evaluation of the examples\<close>




subsection \<open>Page numbers\<close>

text \<open>
  C3: every chunk is to carry the page numbers that its text spans, as the \<open>[Page N]\<close>
  markers of the source text give them, and \<open>[1]\<close> when the text has no marker. The code
  delivers the second half only: \<open>_clean_text\<close> removes every page marker before the text
  is split, so \<open>_extract_page_numbers\<close> finds none in a chunk and answers \<open>[1]\<close>. The text
  of the second page of a PDF whose first page is blank is reported on page 1, and a chunk
  that spans pages 1 and 2 is reported on page 1 alone.
\<close>

theorem page_markers_lost:
  "extract_text blank_first_page_pdf ''pdf'' = Inr (second_page_text, 2) \<and>
   chunk_text (word_processor 500 50) second_page_text 7 =
     [\<lparr>ch_text = ''Beta'', ch_chunk_index = 0, ch_page_numbers = [1],
       ch_token_count = 1, ch_document_id = 7\<rparr>] \<and>
   extract_text two_page_pdf ''pdf'' = Inr (two_page_text, 2) \<and>
   chunk_text (word_processor 500 50) two_page_text 7 =
     [\<lparr>ch_text = ''Alpha Beta'', ch_chunk_index = 0, ch_page_numbers = [1],
       ch_token_count = 2, ch_document_id = 7\<rparr>]"
  by code_simp

subsection \<open>Chunk size\<close>














subsection \<open>Overlap\<close>












section \<open>Properties of the generation step\<close>

text \<open>
  C8: whatever the generation capability and the JSON parser do, \<open>generate_answer\<close> returns
  a value; and whenever a step of its \<open>try\<close> block raises an exception \<open>e\<close>, the value is
  the fallback dictionary for \<open>e\<close>, whose \<open>confidence\<close> is 0 and whose \<open>sources\<close> list is
  empty.
\<close>

theorem generate_answer_never_raises:
  "(\<exists>result. generate_answer svc question context_chunks document_title = Inr result) \<and>
   (\<forall>e. generate_answer_try svc question context_chunks document_title = Inl e \<longrightarrow>
      generate_answer svc question context_chunks document_title = Inr (fallback_answer e) \<and>
      json_get (fallback_answer e) ''confidence'' = Some (JNumber 0) \<and>
      json_get (fallback_answer e) ''sources'' = Some (JArray []))"
  by (simp add: generate_answer_def fallback_answer_def json_get_def split: sum.split)

theorem generate_answer_never_raises_witness:
  "generate_answer_try failing_service ''why?'' [] ''title'' = Inl (ApiError ''Connection error.'') \<and>
   generate_answer failing_service ''why?'' [] ''title''
     = Inr (fallback_answer (ApiError ''Connection error.'')) \<and>
   json_get (fallback_answer (ApiError ''Connection error.'')) ''confidence'' = Some (JNumber 0) \<and>
   json_get (fallback_answer (ApiError ''Connection error.'')) ''sources'' = Some (JArray [])"
proof -
  have t: "generate_answer_try failing_service ''why?'' [] ''title'' = Inl (ApiError ''Connection error.'')"
    by (simp add: generate_answer_try_def failing_service_def)
  from generate_answer_never_raises[of failing_service "''why?''" "[]" "''title''"] t
  show ?thesis by blast
qed

section \<open>Properties of the ingest\<close>

lemma serializer_save_fails:
  "serializer_save env db request =
     Inl (case store_file env (req_file_name request) of
            Inl e \<Rightarrow> e
          | Inr name \<Rightarrow> IntegrityError (constraint_message env ''documents_document.file_size''))"
  by (simp add: serializer_save_def insert_document_def set_file_type_def Let_def
      split: sum.split)

lemma create_document_fails:
  "create_document env db request =
     Inl (case store_file env (req_file_name request) of
            Inl e \<Rightarrow> e
          | Inr name \<Rightarrow> IntegrityError (constraint_message env ''documents_document.file_size''))"
  by (simp add: create_document_def serializer_save_fails)

text \<open>
  C4: every ingest is to end with the document processed, its chunk rows matching its
  embedding records, or in error with neither. The code never gets there:
  \<open>serializer.save()\<close> writes the new row before \<open>file_size\<close>, a column without default that
  must not be null, has been assigned (the assignment stands on the next line), so the
  database raises \<open>IntegrityError\<close> (unless the storage has raised before), the atomic
  block is rolled back and the outer handler answers 500. For every request, every state
  and every behaviour of the environment, \<open>upload_document\<close> answers 400 (request
  rejected) or 500 and leaves the database and the vector store as they were: no document
  is recorded, with status processed or error or any other, and \<open>_process_document\<close> is
  not reached. So it is for the upload of a valid text file.
\<close>

theorem upload_document_never_ingests:
  "upload_document env st request =
     (if is_valid request
      then \<lparr>resp_status = 500, resp_success = False, resp_text = ''Failed to upload document'',
            resp_details =
              Some (case store_file env (req_file_name request) of
                      Inl e \<Rightarrow> str_error e
                    | Inr name \<Rightarrow> constraint_message env ''documents_document.file_size'')\<rparr>
      else \<lparr>resp_status = 400, resp_success = False, resp_text = ''Invalid document data'',
            resp_details = None\<rparr>,
      st) \<and>
   is_valid example_request \<and>
   upload_document working_env example_state example_request =
     (\<lparr>resp_status = 500, resp_success = False, resp_text = ''Failed to upload document'',
       resp_details = Some ''NOT NULL constraint failed: documents_document.file_size''\<rparr>,
      example_state) \<and>
   map doc_id (document_rows (tables (snd (upload_document working_env example_state example_request))))
     = [2]"
proof -
  have general: "\<And>env st request. upload_document env st request =
     (if is_valid request
      then \<lparr>resp_status = 500, resp_success = False, resp_text = ''Failed to upload document'',
            resp_details =
              Some (case store_file env (req_file_name request) of
                      Inl e \<Rightarrow> str_error e
                    | Inr name \<Rightarrow> constraint_message env ''documents_document.file_size'')\<rparr>
      else \<lparr>resp_status = 400, resp_success = False, resp_text = ''Invalid document data'',
            resp_details = None\<rparr>,
      st)"
    by (simp add: upload_document_def create_document_fails upload_failed_def split: sum.split)
  have valid: "is_valid example_request"
    by code_simp
  have run: "upload_document working_env example_state example_request =
     (\<lparr>resp_status = 500, resp_success = False, resp_text = ''Failed to upload document'',
       resp_details = Some ''NOT NULL constraint failed: documents_document.file_size''\<rparr>,
      example_state)"
    by (simp add: general valid working_env_def)
  have rows: "map doc_id (document_rows (tables (snd (upload_document working_env example_state example_request))))
     = [2]"
    unfolding run snd_conv by (simp add: example_state_def)
  from general valid run rows show ?thesis by (intro conjI)
qed

end
